theory Spec2Isabelle
  imports Main "HOL-Library.Word"
begin

section \<open>The systemd\_timings input plugin\<close>

text \<open>
  A shallow embedding of \<^verbatim>\<open>plugins/inputs/systemd_timings/systemd_timings.go\<close>.
  Go's \<^verbatim>\<open>uint64\<close> is \<open>64 word\<close>, and so is \<^verbatim>\<open>int64\<close> (the same 64 bits in two's
  complement, read by \<open>sint\<close>, so that the conversion \<^verbatim>\<open>int64(un)\<close> keeps the bits); a Go
  \<^verbatim>\<open>(value, error)\<close> result whose value is ignored on error is a sum \<open>error + 'a\<close>, and
  the results of \<^verbatim>\<open>strconv\<close>, which come with a value also on error, are pairs; a run-time
  panic is a separate outcome, since no function of the package recovers from one.
\<close>

subsection \<open>Data\<close>

type_synonym uint64 = "64 word"
type_synonym int64 = "64 word"

text \<open>The two sentinel errors of \<^verbatim>\<open>strconv\<close>.\<close>

datatype numError = ErrSyntax | ErrRange

text \<open>
  Go errors: \<^verbatim>\<open>*strconv.NumError{Func, Num, Err}\<close>, an error handed back by the dbus
  client library, and an error built by \<^verbatim>\<open>fmt.Errorf\<close>.
\<close>

datatype error =
    NumError string string numError
  | BusError string
  | Errorf string

text \<open>The value of a run-time panic: index \<open>i\<close> out of range for length \<open>n\<close>.\<close>

datatype panic = IndexOutOfRange nat nat

text \<open>The outcome of a Go call: it returns, or it panics.\<close>

datatype 'a go = Return 'a | Panic panic

text \<open>The plugin's configuration.\<close>

record SystemdTimings =
  UnitPattern :: string
  Periodic :: bool

text \<open>
  One call of \<^verbatim>\<open>acc.AddFields(measurement, fields, tags)\<close>: the field map (every value
  the plugin sends is a \<^verbatim>\<open>uint64\<close>) and the tag map, as the literals are written.
\<close>

record metric =
  metricName :: string
  fieldMap :: "(string \<times> uint64) list"
  tagMap :: "(string \<times> string) list"

text \<open>The \<^verbatim>\<open>telegraf.Accumulator\<close>: what was added, in the order of the calls.\<close>

record accumulator =
  metrics :: "metric list"
  errors :: "error list"

definition AddFields ::
  "accumulator \<Rightarrow> string \<Rightarrow> (string \<times> uint64) list \<Rightarrow> (string \<times> string) list \<Rightarrow> accumulator"
where
  "AddFields acc m f t =
     acc\<lparr>metrics := metrics acc @ [\<lparr>metricName = m, fieldMap = f, tagMap = t\<rparr>]\<rparr>"

definition AddError :: "accumulator \<Rightarrow> error \<Rightarrow> accumulator" where
  "AddError acc err = acc\<lparr>errors := errors acc @ [err]\<rparr>"

text \<open>
  The dbus connection, a black box: \<^verbatim>\<open>GetManagerProperty\<close> returns the property rendered
  as text, \<^verbatim>\<open>GetUnitProperty\<close> the rendering \<^verbatim>\<open>.Value.String()\<close> of the property it found,
  \<^verbatim>\<open>ListUnitsByPatterns\<close> the \<^verbatim>\<open>Name\<close> of each unit status.
\<close>

record dbusConn =
  GetManagerProperty :: "string \<Rightarrow> error + string"
  GetUnitProperty :: "string \<Rightarrow> string \<Rightarrow> error + string"
  ListUnitsByPatterns :: "string list \<Rightarrow> string list \<Rightarrow> error + string list"

text \<open>
  What one call of \<^verbatim>\<open>Gather\<close> meets outside the package: the result of the call of
  \<^verbatim>\<open>dbus.NewSystemConnection()\<close> in \<^verbatim>\<open>bootIsFinished\<close>, the result of the call in
  \<^verbatim>\<open>Gather\<close> itself, and the order in which the Go run time ranges over a map. The
  deferred \<^verbatim>\<open>dbusConn.Close()\<close> changes nothing the plugin reads later and is left out.
\<close>

record dbusEnv =
  checkConnection :: "error + dbusConn"
  passConnection :: "error + dbusConn"
  rangeOrder :: "string list"

text \<open>The package-level variables.\<close>

record globals =
  collectionDone :: bool
  managerProps :: "string \<rightharpoonup> string"

definition measurement :: string where
  "measurement = ''systemd_timings''"

definition defaultUnitPattern :: string where
  "defaultUnitPattern = ''*.service''"

definition defaultPeriodic :: bool where
  "defaultPeriodic = False"

text \<open>The keys of the map literal \<^verbatim>\<open>managerProps\<close>, in the order of the source.\<close>

definition managerPropNames :: "string list" where
  "managerPropNames =
    [''FirmwareTimestampMonotonic'',
     ''LoaderTimestampMonotonic'',
     ''InitRDTimestampMonotonic'',
     ''UserspaceTimestampMonotonic'',
     ''FinishTimestampMonotonic'',
     ''SecurityStartTimestampMonotonic'',
     ''SecurityFinishTimestampMonotonic'',
     ''GeneratorsStartTimestampMonotonic'',
     ''GeneratorsFinishTimestampMonotonic'',
     ''UnitsLoadStartTimestampMonotonic'',
     ''UnitsLoadFinishTimestampMonotonic'',
     ''InitRDSecurityStartTimestampMonotonic'',
     ''InitRDSecurityFinishTimestampMonotonic'',
     ''InitRDGeneratorsStartTimestampMonotonic'',
     ''InitRDGeneratorsFinishTimestampMonotonic'',
     ''InitRDUnitsLoadStartTimestampMonotonic'',
     ''InitRDUnitsLoadFinishTimestampMonotonic'']"

text \<open>The initial values: \<^verbatim>\<open>collectionDone = false\<close>, every manager property \<^verbatim>\<open>""\<close>.\<close>

definition initGlobals :: globals where
  "initGlobals =
     \<lparr>collectionDone = False,
      managerProps = map_of (map (\<lambda>name. (name, '''')) managerPropNames)\<rparr>"

subsection \<open>The Go library functions the plugin calls\<close>

text \<open>
  \<^verbatim>\<open>strings.Split(s, sep)\<close> for a separator of one byte: the substrings between the
  separators, \<^verbatim>\<open>[s]\<close> when \<open>s\<close> has no separator (also for the empty \<open>s\<close>).
\<close>

fun Split :: "string \<Rightarrow> char \<Rightarrow> string list" where
  "Split [] sep = [[]]"
| "Split (c # cs) sep =
     (if c = sep then [] # Split cs sep
      else (case Split cs sep of
              [] \<Rightarrow> [[c]]
            | part # parts \<Rightarrow> (c # part) # parts))"

text \<open>\<^verbatim>\<open>strings.HasSuffix(s, suffix)\<close>.\<close>

definition HasSuffix :: "string \<Rightarrow> string \<Rightarrow> bool" where
  "HasSuffix s suffix =
     (length suffix \<le> length s \<and> drop (length s - length suffix) s = suffix)"

text \<open>
  \<^verbatim>\<open>strconv.ParseUint(s, 10, bitSize)\<close>, base 10 as at every call of the plugin. The loop
  of the library over the bytes of \<open>s\<close>: a byte that is no decimal digit is a syntax error
  (in base 10 a letter is a digit too large and an underscore is not accepted); \<open>n\<close>
  reaching the cutoff, or \<open>n * 10 + d\<close> wrapping around or passing \<open>maxVal\<close>, is a range
  error, returned with \<open>maxVal\<close>.
\<close>

definition isDigit :: "char \<Rightarrow> bool" where
  "isDigit c = ((48::nat) \<le> of_char c \<and> (of_char c :: nat) \<le> 57)"

definition digitVal :: "char \<Rightarrow> uint64" where
  "digitVal c = of_nat (of_char c - 48)"

fun parseUintLoop :: "uint64 \<Rightarrow> uint64 \<Rightarrow> string \<Rightarrow> uint64 \<Rightarrow> uint64 \<times> numError option" where
  "parseUintLoop cutoff maxVal [] n = (n, None)"
| "parseUintLoop cutoff maxVal (c # cs) n =
     (if \<not> isDigit c then (0, Some ErrSyntax)
      else if cutoff \<le> n then (maxVal, Some ErrRange)
      else (let n10 = n * 10; n1 = n10 + digitVal c
            in if n1 < n10 \<or> maxVal < n1 then (maxVal, Some ErrRange)
               else parseUintLoop cutoff maxVal cs n1))"

definition maxUint64 :: uint64 where
  "maxUint64 = - 1"

definition ParseUint :: "string \<Rightarrow> nat \<Rightarrow> uint64 \<times> error option" where
  "ParseUint s bitSize =
     (if s = [] then (0, Some (NumError ''ParseUint'' s ErrSyntax))
      else (case parseUintLoop (maxUint64 div 10 + 1) (push_bit bitSize 1 - 1) s 0 of
              (n, None) \<Rightarrow> (n, None)
            | (n, Some e) \<Rightarrow> (n, Some (NumError ''ParseUint'' s e))))"

text \<open>
  \<^verbatim>\<open>strconv.ParseInt(s, 10, bitSize)\<close>: an optional sign, then \<^verbatim>\<open>ParseUint\<close> on the rest;
  a syntax error is passed on, a magnitude that does not fit \<open>bitSize\<close> signed bits is a
  range error.
\<close>

definition isErrRange :: "error option \<Rightarrow> bool" where
  "isErrRange err = (case err of Some (NumError f n ErrRange) \<Rightarrow> True | _ \<Rightarrow> False)"

definition ParseInt :: "string \<Rightarrow> nat \<Rightarrow> int64 \<times> error option" where
  "ParseInt s0 bitSize =
     (case s0 of
        [] \<Rightarrow> (0, Some (NumError ''ParseInt'' s0 ErrSyntax))
      | c # cs \<Rightarrow>
          (let neg = (c = CHR ''-'');
               s = (if c = CHR ''+'' \<or> c = CHR ''-'' then cs else s0);
               (un, err) = ParseUint s bitSize
           in if err \<noteq> None \<and> \<not> isErrRange err
              then (0, Some (NumError ''ParseInt'' s0 ErrSyntax))
              else (let cutoff = (push_bit (bitSize - 1) 1 :: uint64)
                    in if \<not> neg \<and> cutoff \<le> un
                       then (cutoff - 1, Some (NumError ''ParseInt'' s0 ErrRange))
                       else if neg \<and> cutoff < un
                       then (- cutoff, Some (NumError ''ParseInt'' s0 ErrRange))
                       else (if neg then - un else un, None))))"

text \<open>
  What the plugin decodes is text the dbus client library made of a property of type
  \<^verbatim>\<open>uint64\<close>: the type annotation \<^verbatim>\<open>@t\<close>, a space, and \<^verbatim>\<open>strconv.FormatUint(v, 10)\<close>, the
  value in decimal digits with no leading zero.
\<close>

function decimal :: "nat \<Rightarrow> string" where
  "decimal n =
     (if n < 10 then [char_of (48 + n)]
      else decimal (n div 10) @ [char_of (48 + n mod 10)])"
  by pat_completeness auto
termination
  by (relation "measure (\<lambda>n. n)") auto

declare decimal.simps [simp del]

definition FormatUint :: "uint64 \<Rightarrow> string" where
  "FormatUint v = decimal (unat v)"

definition renderUint64 :: "uint64 \<Rightarrow> string" where
  "renderUint64 v = ''@t '' @ FormatUint v"

subsection \<open>The plugin\<close>

text \<open>
  \<^verbatim>\<open>stripType\<close>: \<^verbatim>\<open>strings.Split(str, " ")[1]\<close>. The index expression panics when the
  split has fewer than two parts.
\<close>

definition stripType :: "string \<Rightarrow> string go" where
  "stripType str =
     (let parts = Split str (CHR '' '')
      in if 1 < length parts then Return (parts ! 1)
         else Panic (IndexOutOfRange 1 (length parts)))"

definition getManagerProp :: "dbusConn \<Rightarrow> string \<Rightarrow> (error + string) go" where
  "getManagerProp conn propName =
     (case GetManagerProperty conn propName of
        Inl err \<Rightarrow> Return (Inl err)
      | Inr prop \<Rightarrow>
          (case stripType prop of
             Panic p \<Rightarrow> Panic p
           | Return v \<Rightarrow> Return (Inr v)))"

definition bootIsFinished :: "dbusEnv \<Rightarrow> bool go" where
  "bootIsFinished env =
     (case checkConnection env of
        Inl err \<Rightarrow> Return False
      | Inr conn \<Rightarrow>
          (case getManagerProp conn ''FinishTimestampMonotonic'' of
             Panic p \<Rightarrow> Panic p
           | Return (Inl err) \<Rightarrow> Return False
           | Return (Inr progressStr) \<Rightarrow>
               (case ParseInt progressStr 32 of
                  (progressVal, Some err) \<Rightarrow> Return False
                | (progressVal, None) \<Rightarrow> Return (progressVal \<noteq> 0))))"

text \<open>
  \<^verbatim>\<open>postAllManagerProps\<close>. The loop ranges over the keys of \<^verbatim>\<open>managerProps\<close>, each key once,
  in the order the run time chooses (\<open>order\<close>); it assigns only to keys it ranges over. A
  failed read goes on to the next key and assigns nothing. The function returns \<^verbatim>\<open>nil\<close>
  whenever it returns.
\<close>

fun postAllManagerProps_loop ::
  "dbusConn \<Rightarrow> string list \<Rightarrow> globals \<Rightarrow> accumulator \<Rightarrow> error option go \<times> globals \<times> accumulator"
where
  "postAllManagerProps_loop conn [] g acc = (Return None, g, acc)"
| "postAllManagerProps_loop conn (name # names) g acc =
     (case getManagerProp conn name of
        Panic p \<Rightarrow> (Panic p, g, acc)
      | Return (Inl err) \<Rightarrow> postAllManagerProps_loop conn names g acc
      | Return (Inr propVal) \<Rightarrow>
          (let g1 = g\<lparr>managerProps := (managerProps g)(name \<mapsto> propVal)\<rparr>
           in if propVal = '''' \<or> propVal = ''0''
              then postAllManagerProps_loop conn names g1 acc
              else (case ParseUint propVal 64 of
                      (v, Some err) \<Rightarrow> postAllManagerProps_loop conn names g1 (AddError acc err)
                    | (v, None) \<Rightarrow>
                        postAllManagerProps_loop conn names g1
                          (AddFields acc measurement
                             [(''SystemTimestampValue'', v)] [(''SystemTimestamp'', name)]))))"

definition postAllManagerProps ::
  "dbusConn \<Rightarrow> string list \<Rightarrow> globals \<Rightarrow> accumulator \<Rightarrow> error option go \<times> globals \<times> accumulator"
where
  "postAllManagerProps conn order g acc =
     postAllManagerProps_loop conn (filter (\<lambda>name. managerProps g name \<noteq> None) order) g acc"

text \<open>
  The early returns of \<^verbatim>\<open>getUnitTimingData\<close>: each step hands its error to the caller
  (\<^verbatim>\<open>if err != nil { return 0, 0, 0, 0, 0, err }\<close>), and a panic unwinds.
\<close>

definition orReturn :: "(error + 'a) go \<Rightarrow> ('a \<Rightarrow> (error + 'b) go) \<Rightarrow> (error + 'b) go" where
  "orReturn m f =
     (case m of
        Panic p \<Rightarrow> Panic p
      | Return (Inl err) \<Rightarrow> Return (Inl err)
      | Return (Inr x) \<Rightarrow> f x)"

text \<open>\<^verbatim>\<open>strconv.ParseUint(stripType(prop.Value.String()), 10, 64)\<close>.\<close>

definition parseTimestamp :: "string \<Rightarrow> (error + uint64) go" where
  "parseTimestamp str =
     (case stripType str of
        Panic p \<Rightarrow> Panic p
      | Return v \<Rightarrow>
          (case ParseUint v 64 of
             (n, Some err) \<Rightarrow> Return (Inl err)
           | (n, None) \<Rightarrow> Return (Inr n)))"

definition getUnitTimingData ::
  "dbusConn \<Rightarrow> string \<Rightarrow> uint64 \<Rightarrow> (error + uint64 \<times> uint64 \<times> uint64 \<times> uint64 \<times> uint64) go"
where
  "getUnitTimingData conn unitName userSpaceStart =
     orReturn (Return (GetUnitProperty conn unitName ''InactiveExitTimestampMonotonic''))
       (\<lambda>activatingProp.
     orReturn (Return (GetUnitProperty conn unitName ''ActiveEnterTimestampMonotonic''))
       (\<lambda>activatedProp.
     orReturn (Return (GetUnitProperty conn unitName ''ActiveExitTimestampMonotonic''))
       (\<lambda>deactivatingProp.
     orReturn (Return (GetUnitProperty conn unitName ''InactiveEnterTimestampMonotonic''))
       (\<lambda>deactivatedProp.
     orReturn (parseTimestamp activatingProp) (\<lambda>activating0.
     orReturn (parseTimestamp activatedProp) (\<lambda>activated0.
     orReturn (parseTimestamp deactivatingProp) (\<lambda>deactivating0.
     orReturn (parseTimestamp deactivatedProp) (\<lambda>deactivated0.
       (let activating = (if 0 < activating0 then activating0 - userSpaceStart else activating0);
            activated = (if 0 < activated0 then activated0 - userSpaceStart else activated0);
            deactivating =
              (if 0 < deactivating0 then deactivating0 - userSpaceStart else deactivating0);
            deactivated =
              (if 0 < deactivated0 then deactivated0 - userSpaceStart else deactivated0);
            runtime =
              (if activating \<le> activated then activated - activating
               else if activating \<le> deactivated then deactivated - activating
               else 0)
        in Return (Inr (activating, activated, deactivating, deactivated, runtime)))))))))))"

text \<open>The error of \<^verbatim>\<open>postAllUnitTimingData\<close> for a key that is not in \<^verbatim>\<open>managerProps\<close>.\<close>

definition errUserspaceNotFound :: error where
  "errUserspaceNotFound =
     Errorf (''UserspaceTimestampMonotonic not found, cannot'' @
             [CHR 0x0A, CHR 0x09, CHR 0x09, CHR 0x09, CHR 0x09, CHR 0x09, CHR 0x09] @
             ''  compute unit timestamps'')"

text \<open>The loop of \<^verbatim>\<open>postAllUnitTimingData\<close> over the unit names: it does not stop on an error.\<close>

fun postAllUnitTimingData_loop ::
  "dbusConn \<Rightarrow> uint64 \<Rightarrow> string list \<Rightarrow> accumulator \<Rightarrow> error option go \<times> accumulator"
where
  "postAllUnitTimingData_loop conn userStartTs [] acc = (Return None, acc)"
| "postAllUnitTimingData_loop conn userStartTs (name # names) acc =
     (case getUnitTimingData conn name userStartTs of
        Panic p \<Rightarrow> (Panic p, acc)
      | Return (Inl err) \<Rightarrow>
          postAllUnitTimingData_loop conn userStartTs names (AddError acc err)
      | Return (Inr (activating, activated, deactivating, deactivated, runtime)) \<Rightarrow>
          (if runtime = 0 \<and> \<not> HasSuffix name ''.target''
           then postAllUnitTimingData_loop conn userStartTs names acc
           else postAllUnitTimingData_loop conn userStartTs names
                  (AddFields acc measurement
                     [(''ActivatingTimestamp'', activating),
                      (''ActivatedTimestamp'', activated),
                      (''DeactivatingTimestamp'', deactivating),
                      (''DeactivatedTimestamp'', deactivated),
                      (''RunDuration'', runtime)]
                     [(''UnitName'', name)])))"

definition postAllUnitTimingData ::
  "dbusConn \<Rightarrow> accumulator \<Rightarrow> SystemdTimings \<Rightarrow> globals \<Rightarrow> error option go \<times> accumulator"
where
  "postAllUnitTimingData conn acc s g =
     (case ListUnitsByPatterns conn [] (Split (UnitPattern s) (CHR '','')) of
        Inl err \<Rightarrow> (Return (Some err), AddError acc err)
      | Inr statusList \<Rightarrow>
          (case managerProps g ''UserspaceTimestampMonotonic'' of
             None \<Rightarrow> (Return (Some errUserspaceNotFound), acc)
           | Some userTs \<Rightarrow>
               (case ParseUint userTs 64 of
                  (userStartTs, Some err) \<Rightarrow> (Return (Some err), AddError acc err)
                | (userStartTs, None) \<Rightarrow>
                    postAllUnitTimingData_loop conn userStartTs statusList acc)))"

text \<open>
  \<^verbatim>\<open>Gather\<close>, one tick of the host: the result (\<^verbatim>\<open>nil\<close> is \<open>None\<close>), the package variables and
  the accumulator after the call.
\<close>

definition Gather ::
  "SystemdTimings \<Rightarrow> dbusEnv \<Rightarrow> globals \<Rightarrow> accumulator \<Rightarrow> error option go \<times> globals \<times> accumulator"
where
  "Gather s env g acc =
     (case bootIsFinished env of
        Panic p \<Rightarrow> (Panic p, g, acc)
      | Return False \<Rightarrow> (Return None, g, acc)
      | Return True \<Rightarrow>
          (if Periodic s = False \<and> collectionDone g = True then (Return None, g, acc)
           else (case passConnection env of
                   Inl err \<Rightarrow> (Return (Some err), g, acc)
                 | Inr conn \<Rightarrow>
                     (case postAllManagerProps conn (rangeOrder env) g acc of
                        (Panic p, g1, acc1) \<Rightarrow> (Panic p, g1, acc1)
                      | (Return (Some err), g1, acc1) \<Rightarrow>
                          (Return (Some err), g1, AddError acc1 err)
                      | (Return None, g1, acc1) \<Rightarrow>
                          (case postAllUnitTimingData conn acc1 s g1 of
                             (Panic p, acc2) \<Rightarrow> (Panic p, g1, acc2)
                           | (Return (Some err), acc2) \<Rightarrow>
                               (Return (Some err), g1, AddError acc2 err)
                           | (Return None, acc2) \<Rightarrow>
                               (Return None, g1\<lparr>collectionDone := True\<rparr>, acc2))))))"

text \<open>The plugin as \<^verbatim>\<open>init\<close> registers it.\<close>

definition newSystemdTimings :: SystemdTimings where
  "newSystemdTimings = \<lparr>UnitPattern = defaultUnitPattern, Periodic = defaultPeriodic\<rparr>"

subsection \<open>Runs of the plugin\<close>

text \<open>
  The host calls \<^verbatim>\<open>Gather\<close> once per tick, each time with the plugin's configuration and
  with whatever the bus offers then; the package variables and the accumulator carry over.
\<close>

fun GatherTicks ::
  "(SystemdTimings \<times> dbusEnv) list \<Rightarrow> globals \<Rightarrow> accumulator \<Rightarrow> globals \<times> accumulator"
where
  "GatherTicks [] g acc = (g, acc)"
| "GatherTicks ((s, env) # ticks) g acc =
     (case Gather s env g acc of (r, g1, acc1) \<Rightarrow> GatherTicks ticks g1 acc1)"

text \<open>The metric records a call added: those of \<open>acc'\<close> after the ones \<open>acc\<close> held already.\<close>

definition newMetrics :: "accumulator \<Rightarrow> accumulator \<Rightarrow> metric list" where
  "newMetrics acc acc' = drop (length (metrics acc)) (metrics acc')"

subsection \<open>What one round of each loop sends\<close>

text \<open>
  The records the body of the loop of \<^verbatim>\<open>postAllUnitTimingData\<close> adds for one unit: none
  when the timing data cannot be had, none for a unit with run duration 0 whose name does
  not end in \<^verbatim>\<open>.target\<close>, one otherwise.
\<close>

definition unitMetrics :: "dbusConn \<Rightarrow> uint64 \<Rightarrow> string \<Rightarrow> metric list" where
  "unitMetrics conn userStartTs name =
     (case getUnitTimingData conn name userStartTs of
        Return (Inr (activating, activated, deactivating, deactivated, runtime)) \<Rightarrow>
          (if runtime = 0 \<and> \<not> HasSuffix name ''.target'' then []
           else [\<lparr>metricName = measurement,
                  fieldMap =
                    [(''ActivatingTimestamp'', activating),
                     (''ActivatedTimestamp'', activated),
                     (''DeactivatingTimestamp'', deactivating),
                     (''DeactivatedTimestamp'', deactivated),
                     (''RunDuration'', runtime)],
                  tagMap = [(''UnitName'', name)]\<rparr>])
      | _ \<Rightarrow> [])"

text \<open>
  The records the body of the loop of \<^verbatim>\<open>postAllManagerProps\<close> adds for one property: none
  when it cannot be read, none when the value is \<^verbatim>\<open>""\<close> or \<^verbatim>\<open>"0"\<close> or does not decode, one
  otherwise.
\<close>

definition managerMetrics :: "dbusConn \<Rightarrow> string \<Rightarrow> metric list" where
  "managerMetrics conn name =
     (case getManagerProp conn name of
        Return (Inr propVal) \<Rightarrow>
          (if propVal = '''' \<or> propVal = ''0'' then []
           else (case ParseUint propVal 64 of
                   (v, None) \<Rightarrow>
                     [\<lparr>metricName = measurement,
                       fieldMap = [(''SystemTimestampValue'', v)],
                       tagMap = [(''SystemTimestamp'', name)]\<rparr>]
                 | (v, Some err) \<Rightarrow> []))
      | _ \<Rightarrow> [])"

subsection \<open>Example buses\<close>

definition emptyAcc :: accumulator where
  "emptyAcc = \<lparr>metrics = [], errors = []\<rparr>"

text \<open>
  A booted system: userspace began at 500, the boot finished at 9000, one manager property
  cannot be read, the others are unset. Three units are listed: a service that started at
  1000 and was up at 5000, a service that never ran, and a target reached at 7000.
\<close>

definition bootedConn :: dbusConn where
  "bootedConn =
     \<lparr>GetManagerProperty =
        (\<lambda>name.
           if name = ''UserspaceTimestampMonotonic'' then Inr ''@t 500''
           else if name = ''FinishTimestampMonotonic'' then Inr ''@t 9000''
           else if name = ''LoaderTimestampMonotonic'' then Inl (BusError ''no such property'')
           else Inr ''@t 0''),
      GetUnitProperty =
        (\<lambda>unit prop.
           if unit = ''a.service'' \<and> prop = ''InactiveExitTimestampMonotonic''
           then Inr ''@t 1000''
           else if unit = ''a.service'' \<and> prop = ''ActiveEnterTimestampMonotonic''
           then Inr ''@t 5000''
           else if unit = ''basic.target'' \<and> prop = ''InactiveExitTimestampMonotonic''
           then Inr ''@t 7000''
           else if unit = ''basic.target'' \<and> prop = ''ActiveEnterTimestampMonotonic''
           then Inr ''@t 7000''
           else Inr ''@t 0''),
      ListUnitsByPatterns =
        (\<lambda>states patterns. Inr [''a.service'', ''idle.service'', ''basic.target''])\<rparr>"

definition bootedEnv :: dbusEnv where
  "bootedEnv =
     \<lparr>checkConnection = Inr bootedConn, passConnection = Inr bootedConn,
      rangeOrder = managerPropNames\<rparr>"

text \<open>
  A system whose boot finished fifty minutes after the monotonic clock started (a slow
  boot, or a container started on a host that had been up for a while).
\<close>

definition lateBootConn :: dbusConn where
  "lateBootConn =
     \<lparr>GetManagerProperty =
        (\<lambda>name.
           if name = ''UserspaceTimestampMonotonic'' then Inr ''@t 500''
           else if name = ''FinishTimestampMonotonic'' then Inr ''@t 3000000000''
           else Inr ''@t 0''),
      GetUnitProperty = (\<lambda>unit prop. Inr ''@t 0''),
      ListUnitsByPatterns = (\<lambda>states patterns. Inr [''a.service''])\<rparr>"

definition lateBootEnv :: dbusEnv where
  "lateBootEnv =
     \<lparr>checkConnection = Inr lateBootConn, passConnection = Inr lateBootConn,
      rangeOrder = managerPropNames\<rparr>"



text \<open>
  The package variables once the start of userspace has been stored, and the package
  variables of a program whose map lacks every key (no run of the plugin leads there).
\<close>

definition bootedGlobals :: globals where
  "bootedGlobals =
     initGlobals\<lparr>managerProps :=
       (managerProps initGlobals)(''UserspaceTimestampMonotonic'' \<mapsto> ''500'')\<rparr>"

definition keylessGlobals :: globals where
  "keylessGlobals = \<lparr>collectionDone = False, managerProps = Map.empty\<rparr>"

text \<open>A bus on which no manager property can be read.\<close>

definition silentConn :: dbusConn where
  "silentConn =
     \<lparr>GetManagerProperty = (\<lambda>name. Inl (BusError ''no reply'')),
      GetUnitProperty = (\<lambda>unit prop. Inr ''@t 0''),
      ListUnitsByPatterns = (\<lambda>states patterns. Inr [])\<rparr>"

text \<open>The package variables after a first run of \<^verbatim>\<open>postAllManagerProps\<close> on the booted system.\<close>

definition afterFirstPass :: globals where
  "afterFirstPass =
     fst (snd (postAllManagerProps bootedConn managerPropNames initGlobals emptyAcc))"

text \<open>
  A tick on which the boot has finished and the connection for the collection cannot be
  opened.
\<close>

definition lostEnv :: dbusEnv where
  "lostEnv =
     \<lparr>checkConnection = Inr bootedConn,
      passConnection = Inl (BusError ''connection refused''),
      rangeOrder = managerPropNames\<rparr>"

text \<open>The package variables after a first tick on the booted system.\<close>

definition afterFirstTick :: globals where
  "afterFirstTick = fst (snd (Gather newSystemdTimings bootedEnv initGlobals emptyAcc))"

text \<open>A tick on which the boot has finished and no manager property can be read.\<close>

definition silentEnv :: dbusEnv where
  "silentEnv =
     \<lparr>checkConnection = Inr bootedConn, passConnection = Inr silentConn,
      rangeOrder = managerPropNames\<rparr>"

text \<open>
  A unit that left the inactive state at 100, before userspace began at 500 (it was started
  in the initial RAM disk), and became active at 600.
\<close>

definition earlyConn :: dbusConn where
  "earlyConn =
     \<lparr>GetManagerProperty =
        (\<lambda>name.
           if name = ''UserspaceTimestampMonotonic'' then Inr ''@t 500''
           else if name = ''FinishTimestampMonotonic'' then Inr ''@t 9000''
           else Inr ''@t 0''),
      GetUnitProperty =
        (\<lambda>unit prop.
           if unit = ''early.service'' \<and> prop = ''InactiveExitTimestampMonotonic''
           then Inr ''@t 100''
           else if unit = ''early.service'' \<and> prop = ''ActiveEnterTimestampMonotonic''
           then Inr ''@t 600''
           else Inr ''@t 0''),
      ListUnitsByPatterns = (\<lambda>states patterns. Inr [''early.service''])\<rparr>"

text \<open>
  Two units, the second started at 2000 and up at 3000. On the first bus a property of the
  first unit is rendered without a type annotation; on the second bus it is rendered with
  one and a value that is no number.
\<close>

definition brokenConn :: dbusConn where
  "brokenConn =
     \<lparr>GetManagerProperty = (\<lambda>name. Inr ''@t 0''),
      GetUnitProperty =
        (\<lambda>unit prop.
           if unit = ''a.service'' \<and> prop = ''InactiveExitTimestampMonotonic''
           then Inr ''1000''
           else if unit = ''b.service'' \<and> prop = ''InactiveExitTimestampMonotonic''
           then Inr ''@t 2000''
           else if unit = ''b.service'' \<and> prop = ''ActiveEnterTimestampMonotonic''
           then Inr ''@t 3000''
           else Inr ''@t 0''),
      ListUnitsByPatterns = (\<lambda>states patterns. Inr [''a.service'', ''b.service''])\<rparr>"

definition unparsableConn :: dbusConn where
  "unparsableConn =
     \<lparr>GetManagerProperty = (\<lambda>name. Inr ''@t 0''),
      GetUnitProperty =
        (\<lambda>unit prop.
           if unit = ''a.service'' \<and> prop = ''InactiveExitTimestampMonotonic''
           then Inr ''@t abc''
           else if unit = ''b.service'' \<and> prop = ''InactiveExitTimestampMonotonic''
           then Inr ''@t 2000''
           else if unit = ''b.service'' \<and> prop = ''ActiveEnterTimestampMonotonic''
           then Inr ''@t 3000''
           else Inr ''@t 0''),
      ListUnitsByPatterns = (\<lambda>states patterns. Inr [''a.service'', ''b.service''])\<rparr>"

section \<open>Properties\<close>

subsection \<open>Evaluation and inversion\<close>

lemmas eval_defs =
  getUnitTimingData_def orReturn_def parseTimestamp_def stripType_def
  ParseUint_def isDigit_def digitVal_def maxUint64_def word_le_nat_alt word_less_nat_alt

lemma orReturn_Inr:
  "orReturn m f = Return (Inr y) \<longleftrightarrow> (\<exists>x. m = Return (Inr x) \<and> f x = Return (Inr y))"
  by (auto simp: orReturn_def split: go.splits sum.splits)

text \<open>What a successful return of \<^verbatim>\<open>getUnitTimingData\<close> says about the reads and the results.\<close>

lemma getUnitTimingData_Inr:
  assumes "getUnitTimingData conn unitName userSpaceStart = Return (Inr (A, B, C, D, R))"
  obtains p1 p2 p3 p4 r1 r2 r3 r4 where
    "GetUnitProperty conn unitName ''InactiveExitTimestampMonotonic'' = Inr p1"
    "GetUnitProperty conn unitName ''ActiveEnterTimestampMonotonic'' = Inr p2"
    "GetUnitProperty conn unitName ''ActiveExitTimestampMonotonic'' = Inr p3"
    "GetUnitProperty conn unitName ''InactiveEnterTimestampMonotonic'' = Inr p4"
    "parseTimestamp p1 = Return (Inr r1)" "parseTimestamp p2 = Return (Inr r2)"
    "parseTimestamp p3 = Return (Inr r3)" "parseTimestamp p4 = Return (Inr r4)"
    "A = (if 0 < r1 then r1 - userSpaceStart else r1)"
    "B = (if 0 < r2 then r2 - userSpaceStart else r2)"
    "C = (if 0 < r3 then r3 - userSpaceStart else r3)"
    "D = (if 0 < r4 then r4 - userSpaceStart else r4)"
    "R = (if A \<le> B then B - A else if A \<le> D then D - A else 0)"
proof -
  from assms [unfolded getUnitTimingData_def orReturn_Inr] obtain p1 p2 p3 p4 r1 r2 r3 r4 where
    a: "Return (GetUnitProperty conn unitName ''InactiveExitTimestampMonotonic'') = Return (Inr p1)"
    "Return (GetUnitProperty conn unitName ''ActiveEnterTimestampMonotonic'') = Return (Inr p2)"
    "Return (GetUnitProperty conn unitName ''ActiveExitTimestampMonotonic'') = Return (Inr p3)"
    "Return (GetUnitProperty conn unitName ''InactiveEnterTimestampMonotonic'') = Return (Inr p4)"
    "parseTimestamp p1 = Return (Inr r1)" "parseTimestamp p2 = Return (Inr r2)"
    "parseTimestamp p3 = Return (Inr r3)" "parseTimestamp p4 = Return (Inr r4)"
    and b: "(let activating = (if 0 < r1 then r1 - userSpaceStart else r1);
            activated = (if 0 < r2 then r2 - userSpaceStart else r2);
            deactivating = (if 0 < r3 then r3 - userSpaceStart else r3);
            deactivated = (if 0 < r4 then r4 - userSpaceStart else r4);
            runtime =
              (if activating \<le> activated then activated - activating
               else if activating \<le> deactivated then deactivated - activating
               else 0)
        in Return (Inr (activating, activated, deactivating, deactivated, runtime)))
        = (Return (Inr (A, B, C, D, R))
            :: (error + uint64 \<times> uint64 \<times> uint64 \<times> uint64 \<times> uint64) go)"
    by (elim exE conjE) (rule that)
  from b [unfolded Let_def] have e:
    "(if 0 < r1 then r1 - userSpaceStart else r1) = A"
    "(if 0 < r2 then r2 - userSpaceStart else r2) = B"
    "(if 0 < r3 then r3 - userSpaceStart else r3) = C"
    "(if 0 < r4 then r4 - userSpaceStart else r4) = D"
    and f: "(if (if 0 < r1 then r1 - userSpaceStart else r1)
                \<le> (if 0 < r2 then r2 - userSpaceStart else r2)
             then (if 0 < r2 then r2 - userSpaceStart else r2) -
                  (if 0 < r1 then r1 - userSpaceStart else r1)
             else if (if 0 < r1 then r1 - userSpaceStart else r1)
                     \<le> (if 0 < r4 then r4 - userSpaceStart else r4)
             then (if 0 < r4 then r4 - userSpaceStart else r4) -
                  (if 0 < r1 then r1 - userSpaceStart else r1)
             else 0) = R"
    unfolding go.inject sum.inject prod.inject by blast+
  from f have d: "R = (if A \<le> B then B - A else if A \<le> D then D - A else 0)"
    unfolding e by (rule sym)
  from a(1-4) have a':
    "GetUnitProperty conn unitName ''InactiveExitTimestampMonotonic'' = Inr p1"
    "GetUnitProperty conn unitName ''ActiveEnterTimestampMonotonic'' = Inr p2"
    "GetUnitProperty conn unitName ''ActiveExitTimestampMonotonic'' = Inr p3"
    "GetUnitProperty conn unitName ''InactiveEnterTimestampMonotonic'' = Inr p4"
    by simp_all
  show thesis by (rule that [OF a' a(5-8) e [symmetric] d])
qed

lemma bootedConn_a_service:
  "getUnitTimingData bootedConn ''a.service'' 500 = Return (Inr (500, 4500, 0, 0, 4000))"
  by (simp add: eval_defs bootedConn_def)

subsection \<open>The run duration\<close>

text \<open>
  Claim C1. Whenever \<^verbatim>\<open>getUnitTimingData\<close> returns timing data for a unit, with the
  normalized timestamps activating \<open>A\<close>, activated \<open>B\<close> and deactivated \<open>D\<close>, the run
  duration it returns is \<open>B - A\<close> if \<open>B \<ge> A\<close>, else \<open>D - A\<close> if \<open>D \<ge> A\<close>, else \<open>0\<close>. No
  subtraction of the rule wraps around: the same holds of the values read as numbers.
\<close>

theorem runDuration_rule:
  assumes "getUnitTimingData conn unitName userSpaceStart = Return (Inr (A, B, C, D, R))"
  shows "R = (if A \<le> B then B - A else if A \<le> D then D - A else 0) \<and>
         unat R = (if unat A \<le> unat B then unat B - unat A
                   else if unat A \<le> unat D then unat D - unat A else 0)"
proof -
  from assms have R: "R = (if A \<le> B then B - A else if A \<le> D then D - A else 0)"
    by (rule getUnitTimingData_Inr)
  show ?thesis
  proof (cases "A \<le> B")
    case True
    with R show ?thesis by (simp add: word_le_nat_alt unat_sub)
  next
    case ab: False
    show ?thesis
    proof (cases "A \<le> D")
      case True
      with ab R show ?thesis by (simp add: word_le_nat_alt unat_sub)
    next
      case False
      with ab R show ?thesis by (simp add: word_le_nat_alt)
    qed
  qed
qed

theorem runDuration_rule_witness:
  "getUnitTimingData bootedConn ''a.service'' 500 = Return (Inr (500, 4500, 0, 0, 4000)) \<and>
   (4000 :: uint64) = 4500 - 500 \<and>
   unat (4000 :: uint64) = unat (4500 :: uint64) - unat (500 :: uint64)"
proof -
  have h: "getUnitTimingData bootedConn ''a.service'' 500 = Return (Inr (500, 4500, 0, 0, 4000))"
    by (simp add: eval_defs bootedConn_def)
  have "(4000 :: uint64) = 4500 - 500 \<and>
        unat (4000 :: uint64) = unat (4500 :: uint64) - unat (500 :: uint64)"
    using runDuration_rule [OF h] by simp
  with h show ?thesis by (rule conjI)
qed

subsection \<open>Normalization to the start of userspace\<close>

lemma unat_normalized:
  fixes r us :: uint64
  shows "(us \<le> r \<longrightarrow> unat (r - us) = unat r - unat us) \<and>
         (r < us \<longrightarrow> unat (r - us) = 2 ^ 64 + unat r - unat us)"
proof (intro conjI impI)
  assume "us \<le> r"
  then show "unat (r - us) = unat r - unat us" by (rule unat_sub)
next
  assume "r < us"
  then have lt: "unat r < unat us" by (simp only: word_less_nat_alt)
  have "unat (r - us) = (if unat us \<le> unat r then unat r - unat us
                         else unat r + 2 ^ size r - unat us)"
    by (rule unat_sub_if_size)
  with lt have "unat (r - us) = unat r + 2 ^ 64 - unat us"
    by (simp only: word_size len_bit0 len_num1 not_le [symmetric] if_False) simp
  then show "unat (r - us) = 2 ^ 64 + unat r - unat us" by (simp only: add.commute)
qed

text \<open>
  What \<^verbatim>\<open>getUnitTimingData\<close> computes. When the four properties of a unit are read and
  decoded, it returns, and of each raw timestamp \<open>r\<close> it returns the value \<open>a\<close>: zero stays
  zero; a non-zero \<open>r\<close> has the start of userspace subtracted in unsigned 64-bit
  arithmetic, which is the difference \<open>r - us\<close> when \<open>us \<le> r\<close> and is \<open>2 ^ 64 + r - us\<close>
  when \<open>r < us\<close>. Raw activating 1000 and activated 5000 with userspace start 500 give
  activating 500, activated 4500 and run duration 4000.
\<close>

lemma normalization_rule:
  assumes "GetUnitProperty conn unitName ''InactiveExitTimestampMonotonic'' = Inr p1"
    and "GetUnitProperty conn unitName ''ActiveEnterTimestampMonotonic'' = Inr p2"
    and "GetUnitProperty conn unitName ''ActiveExitTimestampMonotonic'' = Inr p3"
    and "GetUnitProperty conn unitName ''InactiveEnterTimestampMonotonic'' = Inr p4"
    and "parseTimestamp p1 = Return (Inr r1)" and "parseTimestamp p2 = Return (Inr r2)"
    and "parseTimestamp p3 = Return (Inr r3)" and "parseTimestamp p4 = Return (Inr r4)"
  shows "\<exists>A B C D R.
           getUnitTimingData conn unitName us = Return (Inr (A, B, C, D, R)) \<and>
           (\<forall>(r, a) \<in> {(r1, A), (r2, B), (r3, C), (r4, D)}.
              (r = 0 \<longrightarrow> a = 0) \<and>
              (r \<noteq> 0 \<longrightarrow> a = r - us) \<and>
              (r \<noteq> 0 \<and> us \<le> r \<longrightarrow> unat a = unat r - unat us) \<and>
              (r \<noteq> 0 \<and> r < us \<longrightarrow> unat a = 2 ^ 64 + unat r - unat us)) \<and>
           (r1 = 1000 \<and> r2 = 5000 \<and> us = 500 \<longrightarrow> A = 500 \<and> B = 4500 \<and> R = 4000)"
proof -
  define n where "n = (\<lambda>r :: uint64. if 0 < r then r - us else r)"
  define R where "R = (if n r1 \<le> n r2 then n r2 - n r1
                       else if n r1 \<le> n r4 then n r4 - n r1 else 0)"
  have ret: "getUnitTimingData conn unitName us = Return (Inr (n r1, n r2, n r3, n r4, R))"
    using assms by (simp add: getUnitTimingData_def orReturn_def n_def R_def Let_def)
  have norm: "(r = 0 \<longrightarrow> n r = 0) \<and> (r \<noteq> 0 \<longrightarrow> n r = r - us) \<and>
              (r \<noteq> 0 \<and> us \<le> r \<longrightarrow> unat (n r) = unat r - unat us) \<and>
              (r \<noteq> 0 \<and> r < us \<longrightarrow> unat (n r) = 2 ^ 64 + unat r - unat us)" for r
  proof (cases "r = 0")
    case True
    then show ?thesis by (simp add: n_def)
  next
    case False
    then have "n r = r - us" by (simp add: n_def word_greater_zero_iff)
    with False unat_normalized [of us r] show ?thesis by (simp only: simp_thms)
  qed
  have all: "\<forall>(r, a) \<in> {(r1, n r1), (r2, n r2), (r3, n r3), (r4, n r4)}.
              (r = 0 \<longrightarrow> a = 0) \<and>
              (r \<noteq> 0 \<longrightarrow> a = r - us) \<and>
              (r \<noteq> 0 \<and> us \<le> r \<longrightarrow> unat a = unat r - unat us) \<and>
              (r \<noteq> 0 \<and> r < us \<longrightarrow> unat a = 2 ^ 64 + unat r - unat us)"
  proof (intro ballI, clarify)
    fix r a
    assume "(r, a) \<in> {(r1, n r1), (r2, n r2), (r3, n r3), (r4, n r4)}"
    then have "a = n r" by auto
    with norm [of r] show "(r = 0 \<longrightarrow> a = 0) \<and>
              (r \<noteq> 0 \<longrightarrow> a = r - us) \<and>
              (r \<noteq> 0 \<and> us \<le> r \<longrightarrow> unat a = unat r - unat us) \<and>
              (r \<noteq> 0 \<and> r < us \<longrightarrow> unat a = 2 ^ 64 + unat r - unat us)"
      by (simp only:)
  qed
  have scen: "r1 = 1000 \<and> r2 = 5000 \<and> us = 500 \<longrightarrow> n r1 = 500 \<and> n r2 = 4500 \<and> R = 4000"
    by (simp add: n_def R_def)
  show ?thesis
    by (intro exI conjI) (rule ret, rule all, rule scen)
qed

subsection \<open>The boot-readiness check\<close>

lemmas eval_boot =
  bootIsFinished_def getManagerProp_def ParseInt_def isErrRange_def

text \<open>
  Claim C4 at a finish timestamp of 3000000000 microseconds: the property is read, its
  value is a non-zero unsigned 64-bit integer (\<^verbatim>\<open>ParseUint\<close> with 64 bits decodes it), and
  \<^verbatim>\<open>bootIsFinished\<close> returns false, because it decodes with \<^verbatim>\<open>ParseInt(_, 10, 32)\<close>, which
  reports a range error above 2147483647.
\<close>

theorem bootIsFinished_late_finish:
  "bootIsFinished lateBootEnv = Return False \<and>
   ParseUint ''3000000000'' 64 = (3000000000, None) \<and>
   ParseInt ''3000000000'' 32 =
     (2147483647, Some (NumError ''ParseInt'' ''3000000000'' ErrRange))"
  by (simp add: eval_boot eval_defs lateBootEnv_def lateBootConn_def)

subsection \<open>The value decoder\<close>

lemma Split_not_Nil: "Split s sep \<noteq> []"
  by (induction s) (auto split: list.splits)

lemma length_Split: "length (Split s sep) = Suc (count_list s sep)"
  by (induction s) (auto simp: Split_not_Nil split: list.splits)

lemma Split_many_iff: "1 < length (Split s sep) \<longleftrightarrow> sep \<in> set s"
proof -
  have "count_list s sep = 0 \<longleftrightarrow> sep \<notin> set s"
    by (rule count_list_0_iff)
  then show ?thesis
    by (auto simp: length_Split)
qed

lemma Split_no_sep: "sep \<notin> set s \<Longrightarrow> Split s sep = [s]"
  by (induction s) auto

lemma Split_unfold:
  "Split s sep =
     takeWhile (\<lambda>c. c \<noteq> sep) s #
       (if sep \<in> set s then Split (tl (dropWhile (\<lambda>c. c \<noteq> sep) s)) sep else [])"
  by (induction s) (auto simp: Split_not_Nil split: list.splits)

lemma Split_second:
  assumes "sep \<in> set s"
  shows "Split s sep ! 1 = takeWhile (\<lambda>c. c \<noteq> sep) (tl (dropWhile (\<lambda>c. c \<noteq> sep) s))"
proof -
  let ?rest = "tl (dropWhile (\<lambda>c. c \<noteq> sep) s)"
  from assms have "Split s sep = takeWhile (\<lambda>c. c \<noteq> sep) s # Split ?rest sep"
    using Split_unfold [of s sep] by simp
  then have "Split s sep ! 1 = hd (Split ?rest sep)"
    by (simp add: hd_conv_nth Split_not_Nil)
  also have "\<dots> = takeWhile (\<lambda>c. c \<noteq> sep) ?rest"
    using Split_unfold [of ?rest sep] by (metis list.sel(1))
  finally show ?thesis .
qed

lemma stripType_Panic_iff:
  "stripType str = Panic p \<longleftrightarrow> CHR '' '' \<notin> set str \<and> p = IndexOutOfRange 1 1"
  using Split_many_iff [of str "CHR '' ''"] Split_no_sep [of "CHR '' ''" str]
  by (auto simp: stripType_def Let_def)

lemma stripType_Return:
  "CHR '' '' \<in> set str \<Longrightarrow>
   stripType str =
     Return (takeWhile (\<lambda>c. c \<noteq> CHR '' '') (tl (dropWhile (\<lambda>c. c \<noteq> CHR '' '') str)))"
  using Split_many_iff [of str "CHR '' ''"] Split_second [of "CHR '' ''" str]
  by (simp add: stripType_def Let_def)

text \<open>
  \<^verbatim>\<open>stripType\<close> panics (index 1 out of range for length 1) exactly on the strings without a
  space, and returns the text between the first space and the next one on every other
  string. When the finish timestamp is rendered without a space, \<^verbatim>\<open>bootIsFinished\<close> panics
  and so does \<^verbatim>\<open>Gather\<close>.
\<close>

lemma stripType_panics_without_space:
  "(stripType str = Panic (IndexOutOfRange 1 1) \<longleftrightarrow> CHR '' '' \<notin> set str) \<and>
   (CHR '' '' \<in> set str \<longrightarrow>
      stripType str =
        Return (takeWhile (\<lambda>c. c \<noteq> CHR '' '') (tl (dropWhile (\<lambda>c. c \<noteq> CHR '' '') str)))) \<and>
   (checkConnection env = Inr conn \<and>
    GetManagerProperty conn ''FinishTimestampMonotonic'' = Inr str \<and>
    CHR '' '' \<notin> set str \<longrightarrow>
      bootIsFinished env = Panic (IndexOutOfRange 1 1) \<and>
      Gather s env g acc = (Panic (IndexOutOfRange 1 1), g, acc))"
proof (intro conjI impI)
  show "stripType str = Panic (IndexOutOfRange 1 1) \<longleftrightarrow> CHR '' '' \<notin> set str"
    by (simp add: stripType_Panic_iff)
next
  assume "CHR '' '' \<in> set str"
  then show "stripType str =
        Return (takeWhile (\<lambda>c. c \<noteq> CHR '' '') (tl (dropWhile (\<lambda>c. c \<noteq> CHR '' '') str)))"
    by (rule stripType_Return)
next
  assume a: "checkConnection env = Inr conn \<and>
    GetManagerProperty conn ''FinishTimestampMonotonic'' = Inr str \<and> CHR '' '' \<notin> set str"
  then have "stripType str = Panic (IndexOutOfRange 1 1)"
    by (simp add: stripType_Panic_iff)
  with a show b: "bootIsFinished env = Panic (IndexOutOfRange 1 1)"
    by (simp add: bootIsFinished_def getManagerProp_def)
  then show "Gather s env g acc = (Panic (IndexOutOfRange 1 1), g, acc)"
    by (simp add: Gather_def)
qed

subsection \<open>The unit timing collector\<close>

lemma metrics_AddError [simp]: "metrics (AddError acc err) = metrics acc"
  by (simp add: AddError_def)

lemma metrics_AddFields [simp]:
  "metrics (AddFields acc m f t) = metrics acc @ [\<lparr>metricName = m, fieldMap = f, tagMap = t\<rparr>]"
  by (simp add: AddFields_def)

lemma newMetrics_append: "metrics acc' = metrics acc @ new \<Longrightarrow> newMetrics acc acc' = new"
  by (simp add: newMetrics_def)

lemma unit_loop_metrics:
  "postAllUnitTimingData_loop conn us names acc = (Return res, acc') \<Longrightarrow>
   res = None \<and> metrics acc' = metrics acc @ concat (map (unitMetrics conn us) names)"
proof (induction names arbitrary: acc)
  case Nil
  then show ?case by simp
next
  case (Cons name names)
  show ?case
  proof (cases "getUnitTimingData conn name us")
    case (Panic p)
    with Cons.prems show ?thesis by simp
  next
    case (Return r)
    show ?thesis
    proof (cases r)
      case (Inl err)
      with Return Cons.prems
      have "postAllUnitTimingData_loop conn us names (AddError acc err) = (Return res, acc')"
        by simp
      from Cons.IH [OF this] Return Inl show ?thesis
        by (simp add: unitMetrics_def)
    next
      case (Inr t)
      obtain a b c d rt where t: "t = (a, b, c, d, rt)"
        by (cases t)
      show ?thesis
      proof (cases "rt = 0 \<and> \<not> HasSuffix name ''.target''")
        case True
        with Return Inr t Cons.prems
        have "postAllUnitTimingData_loop conn us names acc = (Return res, acc')"
          by simp
        from Cons.IH [OF this] Return Inr t True show ?thesis
          by (simp add: unitMetrics_def)
      next
        case False
        with Return Inr t Cons.prems
        have "postAllUnitTimingData_loop conn us names
                (AddFields acc measurement
                   [(''ActivatingTimestamp'', a), (''ActivatedTimestamp'', b),
                    (''DeactivatingTimestamp'', c), (''DeactivatedTimestamp'', d),
                    (''RunDuration'', rt)]
                   [(''UnitName'', name)]) = (Return res, acc')"
          by auto
        from Cons.IH [OF this] Return Inr t False show ?thesis
          by (auto simp: unitMetrics_def)
      qed
    qed
  qed
qed

lemma unit_loop_result:
  "fst (postAllUnitTimingData_loop conn us names acc) = Return None \<or>
   (\<exists>p. fst (postAllUnitTimingData_loop conn us names acc) = Panic p)"
proof (cases "fst (postAllUnitTimingData_loop conn us names acc)")
  case (Return res)
  then have "postAllUnitTimingData_loop conn us names acc =
      (Return res, snd (postAllUnitTimingData_loop conn us names acc))"
    by (metis prod.collapse)
  from unit_loop_metrics [OF this] Return show ?thesis by simp
next
  case (Panic p)
  then show ?thesis by simp
qed

lemma unitMetrics_tag:
  "m \<in> set (unitMetrics conn us n) \<Longrightarrow> tagMap m = [(''UnitName'', n)]"
  by (auto simp: unitMetrics_def split: go.splits sum.splits prod.splits if_splits)

lemma unitMetrics_Inr:
  "getUnitTimingData conn name us = Return (Inr (a, b, c, d, rt)) \<Longrightarrow>
   unitMetrics conn us name =
     (if rt = 0 \<and> \<not> HasSuffix name ''.target'' then []
      else [\<lparr>metricName = measurement,
             fieldMap =
               [(''ActivatingTimestamp'', a), (''ActivatedTimestamp'', b),
                (''DeactivatingTimestamp'', c), (''DeactivatedTimestamp'', d),
                (''RunDuration'', rt)],
             tagMap = [(''UnitName'', name)]\<rparr>])"
  by (simp add: unitMetrics_def)

text \<open>
  Claim C2. In a run of \<^verbatim>\<open>postAllUnitTimingData\<close> that returns, take a listed unit whose
  four properties were read and decoded, with run duration \<open>rt\<close>. A record tagged with the
  unit's name is among the records the run added if and only if the name ends in
  \<^verbatim>\<open>.target\<close> or \<open>rt\<close> is not 0: a target is sent whatever its run duration, any other unit
  if and only if its run duration is not 0. The record sent carries the five values.
\<close>

theorem unit_suppression_rule:
  assumes run: "postAllUnitTimingData conn acc s g = (Return res, acc')"
    and list: "ListUnitsByPatterns conn [] (Split (UnitPattern s) (CHR '','')) = Inr statusList"
    and ref: "managerProps g ''UserspaceTimestampMonotonic'' = Some userTs"
    and dec: "ParseUint userTs 64 = (userStartTs, None)"
    and unit: "name \<in> set statusList"
    and data: "getUnitTimingData conn name userStartTs = Return (Inr (a, b, c, d, rt))"
  shows "((\<exists>m \<in> set (newMetrics acc acc'). tagMap m = [(''UnitName'', name)]) \<longleftrightarrow>
            HasSuffix name ''.target'' \<or> rt \<noteq> 0) \<and>
         (\<forall>m \<in> set (newMetrics acc acc'). tagMap m = [(''UnitName'', name)] \<longrightarrow>
            m = \<lparr>metricName = measurement,
                  fieldMap =
                    [(''ActivatingTimestamp'', a), (''ActivatedTimestamp'', b),
                     (''DeactivatingTimestamp'', c), (''DeactivatedTimestamp'', d),
                     (''RunDuration'', rt)],
                  tagMap = [(''UnitName'', name)]\<rparr>)"
proof -
  from run list ref dec
  have "postAllUnitTimingData_loop conn userStartTs statusList acc = (Return res, acc')"
    by (simp add: postAllUnitTimingData_def)
  then have new: "newMetrics acc acc' = concat (map (unitMetrics conn userStartTs) statusList)"
    using unit_loop_metrics newMetrics_append by blast
  have mem: "m \<in> set (newMetrics acc acc') \<and> tagMap m = [(''UnitName'', name)] \<longleftrightarrow>
             m \<in> set (unitMetrics conn userStartTs name)" for m
  proof
    assume "m \<in> set (newMetrics acc acc') \<and> tagMap m = [(''UnitName'', name)]"
    then obtain n where n: "m \<in> set (unitMetrics conn userStartTs n)"
      and tag: "tagMap m = [(''UnitName'', name)]"
      unfolding new by auto
    from unitMetrics_tag [OF n] tag have "n = name" by simp
    with n show "m \<in> set (unitMetrics conn userStartTs name)" by simp
  next
    assume m: "m \<in> set (unitMetrics conn userStartTs name)"
    with unit have "m \<in> set (newMetrics acc acc')"
      unfolding new by auto
    with unitMetrics_tag [OF m]
    show "m \<in> set (newMetrics acc acc') \<and> tagMap m = [(''UnitName'', name)]" by simp
  qed
  have "(\<exists>m \<in> set (newMetrics acc acc'). tagMap m = [(''UnitName'', name)]) \<longleftrightarrow>
        unitMetrics conn userStartTs name \<noteq> []"
    using mem by (metis ex_in_conv set_empty)
  also have "\<dots> \<longleftrightarrow> HasSuffix name ''.target'' \<or> rt \<noteq> 0"
    by (auto simp: unitMetrics_Inr [OF data])
  finally have first: "(\<exists>m \<in> set (newMetrics acc acc'). tagMap m = [(''UnitName'', name)]) \<longleftrightarrow>
        HasSuffix name ''.target'' \<or> rt \<noteq> 0" .
  have second: "\<forall>m \<in> set (newMetrics acc acc'). tagMap m = [(''UnitName'', name)] \<longrightarrow>
            m = \<lparr>metricName = measurement,
                  fieldMap =
                    [(''ActivatingTimestamp'', a), (''ActivatedTimestamp'', b),
                     (''DeactivatingTimestamp'', c), (''DeactivatedTimestamp'', d),
                     (''RunDuration'', rt)],
                  tagMap = [(''UnitName'', name)]\<rparr>"
  proof (intro ballI impI)
    fix m
    assume "m \<in> set (newMetrics acc acc')" "tagMap m = [(''UnitName'', name)]"
    with mem have "m \<in> set (unitMetrics conn userStartTs name)" by blast
    then show "m = \<lparr>metricName = measurement,
                  fieldMap =
                    [(''ActivatingTimestamp'', a), (''ActivatedTimestamp'', b),
                     (''DeactivatingTimestamp'', c), (''DeactivatedTimestamp'', d),
                     (''RunDuration'', rt)],
                  tagMap = [(''UnitName'', name)]\<rparr>"
      by (simp add: unitMetrics_Inr [OF data] split: if_splits)
  qed
  from first second show ?thesis by (rule conjI)
qed

lemma bootedConn_units:
  "getUnitTimingData bootedConn ''idle.service'' 500 = Return (Inr (0, 0, 0, 0, 0))"
  "getUnitTimingData bootedConn ''basic.target'' 500 = Return (Inr (6500, 6500, 0, 0, 0))"
  by (simp_all add: eval_defs bootedConn_def)

lemma bootedGlobals_reference:
  "managerProps bootedGlobals ''UserspaceTimestampMonotonic'' = Some ''500''"
  "ParseUint ''500'' 64 = (500, None)"
  by (simp_all add: bootedGlobals_def eval_defs)

lemma bootedConn_list:
  "ListUnitsByPatterns bootedConn [] (Split (UnitPattern newSystemdTimings) (CHR '',''))
     = Inr [''a.service'', ''idle.service'', ''basic.target'']"
  by (simp add: bootedConn_def)

lemma booted_unit_pass:
  "postAllUnitTimingData bootedConn emptyAcc newSystemdTimings bootedGlobals =
     (Return None,
      \<lparr>metrics =
         [\<lparr>metricName = ''systemd_timings'',
           fieldMap =
             [(''ActivatingTimestamp'', 500), (''ActivatedTimestamp'', 4500),
              (''DeactivatingTimestamp'', 0), (''DeactivatedTimestamp'', 0),
              (''RunDuration'', 4000)],
           tagMap = [(''UnitName'', ''a.service'')]\<rparr>,
          \<lparr>metricName = ''systemd_timings'',
           fieldMap =
             [(''ActivatingTimestamp'', 6500), (''ActivatedTimestamp'', 6500),
              (''DeactivatingTimestamp'', 0), (''DeactivatedTimestamp'', 0),
              (''RunDuration'', 0)],
           tagMap = [(''UnitName'', ''basic.target'')]\<rparr>],
       errors = []\<rparr>)"
  by (simp add: postAllUnitTimingData_def bootedConn_list bootedGlobals_reference
      bootedConn_a_service bootedConn_units HasSuffix_def AddFields_def emptyAcc_def
      measurement_def)

theorem unit_suppression_rule_witness:
  "(\<exists>m \<in> set (newMetrics emptyAcc
        (snd (postAllUnitTimingData bootedConn emptyAcc newSystemdTimings bootedGlobals))).
      tagMap m = [(''UnitName'', ''basic.target'')]) \<and>
   \<not> (\<exists>m \<in> set (newMetrics emptyAcc
        (snd (postAllUnitTimingData bootedConn emptyAcc newSystemdTimings bootedGlobals))).
      tagMap m = [(''UnitName'', ''idle.service'')]) \<and>
   (\<exists>m \<in> set (newMetrics emptyAcc
        (snd (postAllUnitTimingData bootedConn emptyAcc newSystemdTimings bootedGlobals))).
      tagMap m = [(''UnitName'', ''a.service'')])"
proof -
  let ?acc' = "snd (postAllUnitTimingData bootedConn emptyAcc newSystemdTimings bootedGlobals)"
  have run: "postAllUnitTimingData bootedConn emptyAcc newSystemdTimings bootedGlobals =
      (Return None, ?acc')"
    by (simp add: booted_unit_pass)
  have units: "''basic.target'' \<in> set [''a.service'', ''idle.service'', ''basic.target'']"
    "''idle.service'' \<in> set [''a.service'', ''idle.service'', ''basic.target'']"
    "''a.service'' \<in> set [''a.service'', ''idle.service'', ''basic.target'']"
    by simp_all
  have suffix: "HasSuffix ''basic.target'' ''.target''" "\<not> HasSuffix ''idle.service'' ''.target''"
    by (simp_all add: HasSuffix_def)
  note rule = unit_suppression_rule [OF run bootedConn_list bootedGlobals_reference]
  from rule [OF units(1) bootedConn_units(2)] suffix(1)
  have 1: "\<exists>m \<in> set (newMetrics emptyAcc ?acc'). tagMap m = [(''UnitName'', ''basic.target'')]"
    by blast
  from rule [OF units(2) bootedConn_units(1)] suffix(2)
  have 2: "\<not> (\<exists>m \<in> set (newMetrics emptyAcc ?acc'). tagMap m = [(''UnitName'', ''idle.service'')])"
    by blast
  have "(4000 :: uint64) \<noteq> 0" by simp
  with rule [OF units(3) bootedConn_a_service]
  have 3: "\<exists>m \<in> set (newMetrics emptyAcc ?acc'). tagMap m = [(''UnitName'', ''a.service'')]"
    by blast
  from 1 2 3 show ?thesis by blast
qed

lemma ParseUint_error:
  "ParseUint s bitSize = (v, Some err) \<Longrightarrow> \<exists>e. err = NumError ''ParseUint'' s e"
  by (auto simp: ParseUint_def split: if_splits prod.splits option.splits)

text \<open>
  Claim C8, as the code has it. Let the units be listed successfully. When the key
  \<^verbatim>\<open>UserspaceTimestampMonotonic\<close> is not in the map, \<^verbatim>\<open>postAllUnitTimingData\<close> returns the
  not-found error. When the key is there and its value does not decode as an unsigned
  64-bit integer, it returns the error of \<^verbatim>\<open>strconv.ParseUint\<close> instead, which is not the
  not-found error, and reports it to the accumulator. Either way it adds no record. When
  the value decodes, it returns neither error: it returns \<^verbatim>\<open>nil\<close>, or a unit's property
  without a space makes it panic.
\<close>

theorem missing_reference_errors:
  assumes list: "ListUnitsByPatterns conn [] (Split (UnitPattern s) (CHR '','')) = Inr statusList"
  shows "(managerProps g ''UserspaceTimestampMonotonic'' = None \<longrightarrow>
            postAllUnitTimingData conn acc s g = (Return (Some errUserspaceNotFound), acc)) \<and>
         (\<forall>userTs v err.
            managerProps g ''UserspaceTimestampMonotonic'' = Some userTs \<and>
            ParseUint userTs 64 = (v, Some err) \<longrightarrow>
              postAllUnitTimingData conn acc s g = (Return (Some err), AddError acc err) \<and>
              (\<exists>e. err = NumError ''ParseUint'' userTs e) \<and>
              err \<noteq> errUserspaceNotFound \<and>
              newMetrics acc (AddError acc err) = []) \<and>
         (\<forall>userTs v.
            managerProps g ''UserspaceTimestampMonotonic'' = Some userTs \<and>
            ParseUint userTs 64 = (v, None) \<longrightarrow>
              fst (postAllUnitTimingData conn acc s g) = Return None \<or>
              (\<exists>p. fst (postAllUnitTimingData conn acc s g) = Panic p))"
proof (intro conjI allI impI)
  assume "managerProps g ''UserspaceTimestampMonotonic'' = None"
  with list show "postAllUnitTimingData conn acc s g = (Return (Some errUserspaceNotFound), acc)"
    by (simp add: postAllUnitTimingData_def)
next
  fix userTs v err
  assume a: "managerProps g ''UserspaceTimestampMonotonic'' = Some userTs \<and>
            ParseUint userTs 64 = (v, Some err)"
  with list show "postAllUnitTimingData conn acc s g = (Return (Some err), AddError acc err)"
    by (simp add: postAllUnitTimingData_def)
  from a show e: "\<exists>e. err = NumError ''ParseUint'' userTs e"
    by (blast dest: ParseUint_error)
  then show "err \<noteq> errUserspaceNotFound"
    by (auto simp: errUserspaceNotFound_def)
  show "newMetrics acc (AddError acc err) = []"
    by (simp add: newMetrics_def)
next
  fix userTs v
  assume "managerProps g ''UserspaceTimestampMonotonic'' = Some userTs \<and>
            ParseUint userTs 64 = (v, None)"
  with list have "postAllUnitTimingData conn acc s g =
      postAllUnitTimingData_loop conn v statusList acc"
    by (simp add: postAllUnitTimingData_def)
  with unit_loop_result [of conn v statusList acc]
  show "fst (postAllUnitTimingData conn acc s g) = Return None \<or>
              (\<exists>p. fst (postAllUnitTimingData conn acc s g) = Panic p)"
    by simp
qed

lemma initGlobals_reference:
  "managerProps initGlobals ''UserspaceTimestampMonotonic'' = Some ''''"
  "ParseUint '''' 64 = (0, Some (NumError ''ParseUint'' '''' ErrSyntax))"
  by (simp_all add: initGlobals_def managerPropNames_def ParseUint_def)

theorem missing_reference_errors_witness:
  "postAllUnitTimingData bootedConn emptyAcc newSystemdTimings keylessGlobals =
     (Return (Some errUserspaceNotFound), emptyAcc) \<and>
   postAllUnitTimingData bootedConn emptyAcc newSystemdTimings initGlobals =
     (Return (Some (NumError ''ParseUint'' '''' ErrSyntax)),
      AddError emptyAcc (NumError ''ParseUint'' '''' ErrSyntax)) \<and>
   fst (postAllUnitTimingData bootedConn emptyAcc newSystemdTimings bootedGlobals) = Return None"
proof -
  note rule = missing_reference_errors [OF bootedConn_list, of _ emptyAcc]
  have "managerProps keylessGlobals ''UserspaceTimestampMonotonic'' = None"
    by (simp add: keylessGlobals_def)
  with rule [of keylessGlobals]
  have 1: "postAllUnitTimingData bootedConn emptyAcc newSystemdTimings keylessGlobals =
     (Return (Some errUserspaceNotFound), emptyAcc)"
    by blast
  from rule [of initGlobals] initGlobals_reference
  have 2: "postAllUnitTimingData bootedConn emptyAcc newSystemdTimings initGlobals =
     (Return (Some (NumError ''ParseUint'' '''' ErrSyntax)),
      AddError emptyAcc (NumError ''ParseUint'' '''' ErrSyntax))"
    by blast
  from rule [of bootedGlobals] bootedGlobals_reference
  have "fst (postAllUnitTimingData bootedConn emptyAcc newSystemdTimings bootedGlobals) = Return None \<or>
     (\<exists>p. fst (postAllUnitTimingData bootedConn emptyAcc newSystemdTimings bootedGlobals) = Panic p)"
    by blast
  then have 3: "fst (postAllUnitTimingData bootedConn emptyAcc newSystemdTimings bootedGlobals) = Return None"
    by (simp add: booted_unit_pass)
  from 1 2 3 show ?thesis by blast
qed

text \<open>
  Before any manager property has been read the stored reference is the empty string, not
  usable, and the error is a syntax error of \<^verbatim>\<open>ParseUint\<close>, not the not-found error.
\<close>

theorem empty_reference_counterexample:
  "postAllUnitTimingData bootedConn emptyAcc newSystemdTimings initGlobals =
     (Return (Some (NumError ''ParseUint'' '''' ErrSyntax)),
      \<lparr>metrics = [], errors = [NumError ''ParseUint'' '''' ErrSyntax]\<rparr>) \<and>
   NumError ''ParseUint'' '''' ErrSyntax \<noteq> errUserspaceNotFound"
  by (simp add: postAllUnitTimingData_def bootedConn_list initGlobals_reference
      AddError_def emptyAcc_def errUserspaceNotFound_def)

subsection \<open>The manager timestamp collector\<close>

text \<open>A decimal that decodes and does not begin with the digit 0 is not zero.\<close>

lemma parseUintLoop_nonzero:
  assumes "parseUintLoop cutoff maxVal s n = (v, None)"
    and "unat cutoff \<le> 1844674407370955162" and "n \<noteq> 0"
  shows "v \<noteq> 0"
  using assms
proof (induction s arbitrary: n)
  case Nil
  then show ?case by simp
next
  case (Cons c cs)
  let ?n1 = "n * 10 + digitVal c"
  from Cons.prems(1) have small: "\<not> cutoff \<le> n" and le: "\<not> ?n1 < n * 10"
    and rest: "parseUintLoop cutoff maxVal cs ?n1 = (v, None)"
    by (simp_all add: Let_def split: if_splits)
  from small Cons.prems(2) have "unat n < 1844674407370955162"
    by (simp add: word_le_nat_alt)
  then have "unat n * unat (10 :: uint64) < 2 ^ LENGTH(64)"
    by simp
  then have "unat (n * 10) = unat n * unat (10 :: uint64)"
    by (simp only: unat_mult_lem)
  moreover from Cons.prems(3) have "unat n \<noteq> 0"
    by (simp add: unat_eq_0)
  ultimately have "unat (n * 10) \<noteq> 0"
    by simp
  then have "n * 10 \<noteq> 0"
    by (simp add: unat_eq_0)
  with le have "?n1 \<noteq> 0"
    by (metis word_gt_0 word_not_simps(1) not_less)
  from Cons.IH [OF rest Cons.prems(2) this] show ?case .
qed

lemma digitVal_nonzero:
  assumes "isDigit c" and "c \<noteq> CHR ''0''"
  shows "digitVal c \<noteq> 0"
proof -
  have "of_char c \<noteq> (of_char (CHR ''0'') :: nat)"
    using assms(2) by (simp only: of_char_eq_iff not_False_eq_True)
  then have "(of_char c :: nat) \<noteq> 48" by simp
  with assms(1) have k: "0 < (of_char c :: nat) - 48" "(of_char c :: nat) - 48 < 10"
    unfolding isDigit_def by linarith+
  then have "(of_char c :: nat) - 48 < 2 ^ LENGTH(64)"
    by simp
  with k(1) have "(of_nat (of_char c - 48) :: uint64) \<noteq> 0"
    by (rule of_nat_neq_0)
  then show ?thesis
    by (simp only: digitVal_def not_False_eq_True)
qed

lemma ParseUint_nonzero:
  assumes "ParseUint (c # cs) 64 = (v, None)" and "c \<noteq> CHR ''0''"
  shows "v \<noteq> 0"
proof -
  let ?cutoff = "maxUint64 div 10 + 1"
  let ?maxVal = "push_bit 64 1 - 1 :: uint64"
  have cut: "?cutoff = 1844674407370955162"
    by (simp add: maxUint64_def)
  obtain r e where re: "parseUintLoop ?cutoff ?maxVal (c # cs) 0 = (r, e)"
    by (cases "parseUintLoop ?cutoff ?maxVal (c # cs) 0")
  with assms(1) have "e = None" "r = v"
    by (cases e; simp add: ParseUint_def)+
  with re have loop: "parseUintLoop ?cutoff ?maxVal (c # cs) 0 = (v, None)"
    by simp
  then have digit: "isDigit c"
    and rest: "parseUintLoop ?cutoff ?maxVal cs (digitVal c) = (v, None)"
    by (auto simp: Let_def cut split: if_splits)
  have "unat ?cutoff \<le> 1844674407370955162"
    by (simp add: cut)
  from parseUintLoop_nonzero [OF rest this digitVal_nonzero [OF digit assms(2)]]
  show ?thesis .
qed


lemma manager_loop_metrics:
  "postAllManagerProps_loop conn names g acc = (Return res, g', acc') \<Longrightarrow>
   res = None \<and> metrics acc' = metrics acc @ concat (map (managerMetrics conn) names)"
proof (induction names arbitrary: g acc)
  case Nil
  then show ?case by simp
next
  case (Cons name names)
  show ?case
  proof (cases "getManagerProp conn name")
    case (Panic p)
    with Cons.prems show ?thesis by simp
  next
    case (Return r)
    show ?thesis
    proof (cases r)
      case (Inl err)
      with Return Cons.prems
      have "postAllManagerProps_loop conn names g acc = (Return res, g', acc')"
        by simp
      from Cons.IH [OF this] Return Inl show ?thesis
        by (simp add: managerMetrics_def)
    next
      case (Inr propVal)
      let ?g1 = "g\<lparr>managerProps := (managerProps g)(name \<mapsto> propVal)\<rparr>"
      obtain v err where parse: "ParseUint propVal 64 = (v, err)"
        by (cases "ParseUint propVal 64")
      show ?thesis
      proof (cases "propVal = '''' \<or> propVal = ''0''")
        case True
        with Return Inr Cons.prems
        have "postAllManagerProps_loop conn names ?g1 acc = (Return res, g', acc')"
          by (auto simp: Let_def)
        from Cons.IH [OF this] Return Inr True show ?thesis
          by (auto simp: managerMetrics_def)
      next
        case False
        show ?thesis
        proof (cases err)
          case None
          with False parse Return Inr Cons.prems
          have "postAllManagerProps_loop conn names ?g1
                  (AddFields acc measurement
                     [(''SystemTimestampValue'', v)] [(''SystemTimestamp'', name)])
                = (Return res, g', acc')"
            by (simp add: Let_def)
          from Cons.IH [OF this] Return Inr False parse None show ?thesis
            by (simp add: managerMetrics_def)
        next
          case (Some e)
          with False parse Return Inr Cons.prems
          have "postAllManagerProps_loop conn names ?g1 (AddError acc e) = (Return res, g', acc')"
            by (simp add: Let_def)
          from Cons.IH [OF this] Return Inr False parse Some show ?thesis
            by (simp add: managerMetrics_def)
        qed
      qed
    qed
  qed
qed

text \<open>One round of the loop: what it does to the package variables.\<close>

lemma manager_loop_step:
  assumes "postAllManagerProps_loop conn (name # names) g acc = (r, g', acc')"
  shows "(\<exists>p. getManagerProp conn name = Panic p \<and> r = Panic p \<and> g' = g) \<or>
         (\<exists>err acc1. getManagerProp conn name = Return (Inl err) \<and>
            postAllManagerProps_loop conn names g acc1 = (r, g', acc')) \<or>
         (\<exists>v acc1. getManagerProp conn name = Return (Inr v) \<and>
            postAllManagerProps_loop conn names
              (g\<lparr>managerProps := (managerProps g)(name \<mapsto> v)\<rparr>) acc1 = (r, g', acc'))"
proof (cases "getManagerProp conn name")
  case (Panic p)
  with assms show ?thesis by simp
next
  case (Return x)
  show ?thesis
  proof (cases x)
    case (Inl err)
    with Return assms show ?thesis by auto
  next
    case (Inr v)
    obtain n err where parse: "ParseUint v 64 = (n, err)"
      by (cases "ParseUint v 64")
    from Return Inr assms parse show ?thesis
      by (cases err) (auto simp: Let_def split: if_splits)
  qed
qed

lemma manager_loop_props:
  "postAllManagerProps_loop conn names g acc = (r, g', acc') \<Longrightarrow>
   collectionDone g' = collectionDone g \<and>
   (\<forall>name. managerProps g' name = managerProps g name \<or>
      (name \<in> set names \<and>
       (\<exists>v. getManagerProp conn name = Return (Inr v) \<and> managerProps g' name = Some v)))"
proof (induction names arbitrary: g acc)
  case Nil
  then show ?case by simp
next
  case (Cons n names)
  from manager_loop_step [OF Cons.prems] show ?case
  proof (elim disjE exE conjE)
    fix p
    assume "g' = g"
    then show ?thesis by simp
  next
    fix err acc1
    assume "postAllManagerProps_loop conn names g acc1 = (r, g', acc')"
    from Cons.IH [OF this] show ?thesis by auto
  next
    fix v acc1
    assume v: "getManagerProp conn n = Return (Inr v)"
      and "postAllManagerProps_loop conn names
             (g\<lparr>managerProps := (managerProps g)(n \<mapsto> v)\<rparr>) acc1 = (r, g', acc')"
    from Cons.IH [OF this(2)]
    have cd: "collectionDone g' = collectionDone g"
      and ih: "managerProps g' name =
                 managerProps (g\<lparr>managerProps := (managerProps g)(n \<mapsto> v)\<rparr>) name \<or>
               (name \<in> set names \<and>
                (\<exists>v. getManagerProp conn name = Return (Inr v) \<and> managerProps g' name = Some v))"
      for name
      by simp_all
    have "managerProps g' name = managerProps g name \<or>
      (name \<in> set (n # names) \<and>
       (\<exists>v. getManagerProp conn name = Return (Inr v) \<and> managerProps g' name = Some v))"
      for name
    proof (cases "name = n")
      case True
      with ih [of name] v show ?thesis by auto
    next
      case False
      with ih [of name] show ?thesis by auto
    qed
    with cd show ?thesis by blast
  
qed
qed

lemma manager_loop_no_panic:
  "postAllManagerProps_loop conn names g acc = (Return res, g', acc') \<Longrightarrow>
   name \<in> set names \<Longrightarrow> \<exists>x. getManagerProp conn name = Return x"
proof (induction names arbitrary: g acc)
  case Nil
  then show ?case by simp
next
  case (Cons n names)
  from manager_loop_step [OF Cons.prems(1)] show ?case
  proof (elim disjE exE conjE)
    fix p
    assume "Return res = Panic p"
    then show ?thesis by simp
  next
    fix err acc1
    assume "getManagerProp conn n = Return (Inl err)"
      "postAllManagerProps_loop conn names g acc1 = (Return res, g', acc')"
    with Cons.IH Cons.prems(2) show ?thesis by auto
  next
    fix v acc1
    assume "getManagerProp conn n = Return (Inr v)"
      "postAllManagerProps_loop conn names
             (g\<lparr>managerProps := (managerProps g)(n \<mapsto> v)\<rparr>) acc1 = (Return res, g', acc')"
    with Cons.IH Cons.prems(2) show ?thesis by auto
  qed
qed

lemma manager_loop_stored:
  "postAllManagerProps_loop conn names g acc = (Return res, g', acc') \<Longrightarrow>
   name \<in> set names \<Longrightarrow> getManagerProp conn name = Return (Inr v) \<Longrightarrow>
   managerProps g' name = Some v"
proof (induction names arbitrary: g acc)
  case Nil
  then show ?case by simp
next
  case (Cons n names)
  from manager_loop_step [OF Cons.prems(1)] show ?case
  proof (elim disjE exE conjE)
    fix p
    assume "Return res = Panic p"
    then show ?thesis by simp
  next
    fix err acc1
    assume "getManagerProp conn n = Return (Inl err)"
      "postAllManagerProps_loop conn names g acc1 = (Return res, g', acc')"
    with Cons.IH Cons.prems(2,3) show ?thesis by auto
  next
    fix w acc1
    assume w: "getManagerProp conn n = Return (Inr w)"
      and rest: "postAllManagerProps_loop conn names
             (g\<lparr>managerProps := (managerProps g)(n \<mapsto> w)\<rparr>) acc1 = (Return res, g', acc')"
    show ?thesis
    proof (cases "name \<in> set names")
      case True
      from Cons.IH [OF rest True Cons.prems(3)] show ?thesis .
    next
      case False
      with Cons.prems(2) have "name = n" by simp
      with w Cons.prems(3) have "w = v" by simp
      from manager_loop_props [OF rest] False
      have "managerProps g' name =
            managerProps (g\<lparr>managerProps := (managerProps g)(n \<mapsto> w)\<rparr>) name"
        by blast
      with \<open>name = n\<close> \<open>w = v\<close> show ?thesis by simp
    qed
  qed
qed

lemma manager_loop_returns:
  "\<forall>name \<in> set names. \<exists>x. getManagerProp conn name = Return x \<Longrightarrow>
   fst (postAllManagerProps_loop conn names g acc) = Return None"
proof (induction names arbitrary: g acc)
  case Nil
  then show ?case by simp
next
  case (Cons n names)
  then obtain x where x: "getManagerProp conn n = Return x"
    by auto
  from Cons have ih: "fst (postAllManagerProps_loop conn names g1 acc1) = Return None" for g1 acc1
    by simp
  show ?case
  proof (cases x)
    case (Inl err)
    with x ih show ?thesis by simp
  next
    case (Inr v)
    obtain k err where "ParseUint v 64 = (k, err)"
      by (cases "ParseUint v 64")
    with x Inr ih show ?thesis
      by (cases err) (simp_all add: Let_def)
  qed
qed

lemma managerMetrics_tag:
  assumes "m \<in> set (managerMetrics conn n)"
  shows "tagMap m = [(''SystemTimestamp'', n)]"
proof (cases "getManagerProp conn n")
  case (Panic p)
  with assms show ?thesis by (simp add: managerMetrics_def)
next
  case (Return x)
  show ?thesis
  proof (cases x)
    case (Inl err)
    with Return assms show ?thesis by (simp add: managerMetrics_def)
  next
    case (Inr v)
    obtain k err where "ParseUint v 64 = (k, err)"
      by (cases "ParseUint v 64")
    with Return Inr assms show ?thesis
      by (cases err) (simp_all add: managerMetrics_def split: if_splits)
  qed
qed

lemma managerMetrics_read:
  "GetManagerProperty conn name = Inr raw \<Longrightarrow> stripType raw = Return tok \<Longrightarrow>
   managerMetrics conn name =
     (if tok = '''' \<or> tok = ''0'' \<or> snd (ParseUint tok 64) \<noteq> None then []
      else [\<lparr>metricName = measurement,
             fieldMap = [(''SystemTimestampValue'', fst (ParseUint tok 64))],
             tagMap = [(''SystemTimestamp'', name)]\<rparr>])"
  by (cases "ParseUint tok 64")
     (auto simp: managerMetrics_def getManagerProp_def split: option.splits)

lemma getManagerProp_read:
  "GetManagerProperty conn name = Inr raw \<Longrightarrow> getManagerProp conn name = Return x \<Longrightarrow>
   \<exists>tok. stripType raw = Return tok \<and> x = Inr tok"
  by (auto simp: getManagerProp_def split: go.splits)

lemma ParseUint_zero_token:
  "snd (ParseUint '''' 64) \<noteq> None" "ParseUint ''0'' 64 = (0, None)"
  by (simp_all add: eval_defs)

text \<open>
  The loop of \<^verbatim>\<open>postAllManagerProps\<close> in terms of the value token \<open>tok\<close> of a property that
  was read: the comparisons with \<^verbatim>\<open>""\<close> and \<^verbatim>\<open>"0"\<close>, then the decoding.
\<close>

lemma manager_emission_token:
  assumes run: "postAllManagerProps conn order g acc = (Return res, g', acc')"
    and key: "name \<in> set order" "managerProps g name \<noteq> None"
    and read: "GetManagerProperty conn name = Inr raw"
  shows "\<exists>tok. stripType raw = Return tok \<and>
           ((\<exists>m \<in> set (newMetrics acc acc'). tagMap m = [(''SystemTimestamp'', name)]) \<longleftrightarrow>
              tok \<noteq> '''' \<and> tok \<noteq> ''0'' \<and> snd (ParseUint tok 64) = None) \<and>
           (\<forall>m \<in> set (newMetrics acc acc'). tagMap m = [(''SystemTimestamp'', name)] \<longrightarrow>
              m = \<lparr>metricName = measurement,
                    fieldMap = [(''SystemTimestampValue'', fst (ParseUint tok 64))],
                    tagMap = [(''SystemTimestamp'', name)]\<rparr>) \<and>
           (snd (ParseUint tok 64) = None \<and> fst (ParseUint tok 64) \<noteq> 0 \<longrightarrow>
              (\<exists>m \<in> set (newMetrics acc acc'). tagMap m = [(''SystemTimestamp'', name)])) \<and>
           (tok \<noteq> [] \<and> hd tok \<noteq> CHR ''0'' \<longrightarrow>
              ((\<exists>m \<in> set (newMetrics acc acc'). tagMap m = [(''SystemTimestamp'', name)]) \<longleftrightarrow>
                 snd (ParseUint tok 64) = None \<and> fst (ParseUint tok 64) \<noteq> 0))"
proof -
  let ?names = "filter (\<lambda>name. managerProps g name \<noteq> None) order"
  from run have loop: "postAllManagerProps_loop conn ?names g acc = (Return res, g', acc')"
    by (simp add: postAllManagerProps_def)
  from key have name: "name \<in> set ?names" by simp
  from manager_loop_no_panic [OF loop name] getManagerProp_read [OF read]
  obtain tok where tok: "stripType raw = Return tok"
    by blast
  note mm = managerMetrics_read [OF read tok]
  from loop have new: "newMetrics acc acc' = concat (map (managerMetrics conn) ?names)"
    using manager_loop_metrics newMetrics_append by blast
  have mem: "m \<in> set (newMetrics acc acc') \<and> tagMap m = [(''SystemTimestamp'', name)] \<longleftrightarrow>
             m \<in> set (managerMetrics conn name)" for m
  proof
    assume "m \<in> set (newMetrics acc acc') \<and> tagMap m = [(''SystemTimestamp'', name)]"
    then obtain n where n: "m \<in> set (managerMetrics conn n)"
      and tag: "tagMap m = [(''SystemTimestamp'', name)]"
      unfolding new by auto
    from managerMetrics_tag [OF n] tag have "n = name" by simp
    with n show "m \<in> set (managerMetrics conn name)" by simp
  next
    assume m: "m \<in> set (managerMetrics conn name)"
    with name have "m \<in> set (newMetrics acc acc')"
      unfolding new by auto
    with managerMetrics_tag [OF m]
    show "m \<in> set (newMetrics acc acc') \<and> tagMap m = [(''SystemTimestamp'', name)]" by simp
  qed
  have "(\<exists>m \<in> set (newMetrics acc acc'). tagMap m = [(''SystemTimestamp'', name)]) \<longleftrightarrow>
        managerMetrics conn name \<noteq> []"
    using mem by (metis ex_in_conv set_empty)
  also have "\<dots> \<longleftrightarrow> tok \<noteq> '''' \<and> tok \<noteq> ''0'' \<and> snd (ParseUint tok 64) = None"
    by (simp add: mm)
  finally have first:
    "(\<exists>m \<in> set (newMetrics acc acc'). tagMap m = [(''SystemTimestamp'', name)]) \<longleftrightarrow>
     tok \<noteq> '''' \<and> tok \<noteq> ''0'' \<and> snd (ParseUint tok 64) = None" .
  have second: "\<forall>m \<in> set (newMetrics acc acc'). tagMap m = [(''SystemTimestamp'', name)] \<longrightarrow>
              m = \<lparr>metricName = measurement,
                    fieldMap = [(''SystemTimestampValue'', fst (ParseUint tok 64))],
                    tagMap = [(''SystemTimestamp'', name)]\<rparr>"
  proof (intro ballI impI)
    fix m
    assume "m \<in> set (newMetrics acc acc')" "tagMap m = [(''SystemTimestamp'', name)]"
    with mem have "m \<in> set (managerMetrics conn name)" by blast
    then show "m = \<lparr>metricName = measurement,
                    fieldMap = [(''SystemTimestampValue'', fst (ParseUint tok 64))],
                    tagMap = [(''SystemTimestamp'', name)]\<rparr>"
      by (simp add: mm split: if_splits)
  qed
  have third: "snd (ParseUint tok 64) = None \<and> fst (ParseUint tok 64) \<noteq> 0 \<longrightarrow>
              (\<exists>m \<in> set (newMetrics acc acc'). tagMap m = [(''SystemTimestamp'', name)])"
  proof
    assume a: "snd (ParseUint tok 64) = None \<and> fst (ParseUint tok 64) \<noteq> 0"
    with ParseUint_zero_token have "tok \<noteq> '''' \<and> tok \<noteq> ''0''"
      by auto
    with a first
    show "\<exists>m \<in> set (newMetrics acc acc'). tagMap m = [(''SystemTimestamp'', name)]"
      by blast
  qed
  have fourth: "tok \<noteq> [] \<and> hd tok \<noteq> CHR ''0'' \<longrightarrow>
              ((\<exists>m \<in> set (newMetrics acc acc'). tagMap m = [(''SystemTimestamp'', name)]) \<longleftrightarrow>
                 snd (ParseUint tok 64) = None \<and> fst (ParseUint tok 64) \<noteq> 0)"
  proof
    assume "tok \<noteq> [] \<and> hd tok \<noteq> CHR ''0''"
    then obtain c cs where c: "tok = c # cs" "c \<noteq> CHR ''0''"
      by (cases tok) auto
    have "fst (ParseUint tok 64) \<noteq> 0" if "snd (ParseUint tok 64) = None"
    proof -
      from that c(1) have "ParseUint (c # cs) 64 = (fst (ParseUint tok 64), None)"
        by (simp add: prod_eq_iff)
      from ParseUint_nonzero [OF this c(2)] show ?thesis .
    qed
    moreover from c have "tok \<noteq> [] \<and> tok \<noteq> ''0''" by auto
    ultimately
    show "(\<exists>m \<in> set (newMetrics acc acc'). tagMap m = [(''SystemTimestamp'', name)]) \<longleftrightarrow>
                 snd (ParseUint tok 64) = None \<and> fst (ParseUint tok 64) \<noteq> 0"
      unfolding first by auto
  qed
  show ?thesis
    by (intro exI conjI) (rule tok, rule first, rule second, rule third, rule fourth)
qed

lemma digit_char:
  assumes "d < 10"
  shows "isDigit (char_of (48 + d))" and "digitVal (char_of (48 + d)) = of_nat d"
    and "char_of (48 + d) \<noteq> CHR '' ''"
    and "char_of (48 + d) = CHR ''0'' \<longleftrightarrow> d = 0"
proof -
  from assms have code: "(of_char (char_of (48 + d)) :: nat) = 48 + d"
    by simp
  from code assms show "isDigit (char_of (48 + d))"
    by (simp add: isDigit_def)
  from code show "digitVal (char_of (48 + d)) = of_nat d"
    by (simp add: digitVal_def)
  have "(of_char (char_of (48 + d)) :: nat) = of_char (CHR '' '') \<longleftrightarrow> False"
    using assms by (simp only: code) simp
  then show "char_of (48 + d) \<noteq> CHR '' ''"
    by (simp only: of_char_eq_iff) simp
  have "(of_char (char_of (48 + d)) :: nat) = of_char (CHR ''0'') \<longleftrightarrow> d = 0"
    by (simp only: code) simp
  then show "char_of (48 + d) = CHR ''0'' \<longleftrightarrow> d = 0"
    by (simp only: of_char_eq_iff)
qed

lemma decimal_not_Nil: "decimal n \<noteq> []"
  by (subst decimal.simps) simp

lemma decimal_no_space: "CHR '' '' \<notin> set (decimal n)"
proof (induction n rule: decimal.induct)
  case (1 n)
  show ?case
  proof (cases "n < 10")
    case True
    with digit_char(3) [of n] show ?thesis
      by (subst decimal.simps) auto
  next
    case False
    have "n mod 10 < 10" by simp
    from digit_char(3) [OF this] 1 False show ?thesis
      by (subst decimal.simps) auto
  qed
qed

lemma decimal_leading_zero: "decimal n = CHR ''0'' # cs \<Longrightarrow> n = 0 \<and> cs = []"
proof (induction n arbitrary: cs rule: decimal.induct)
  case (1 n)
  show ?case
  proof (cases "n < 10")
    case True
    with "1.prems" have "char_of (48 + n) = CHR ''0'' \<and> cs = []"
      by (subst (asm) decimal.simps) simp
    with digit_char(4) [OF True] show ?thesis by simp
  next
    case False
    with "1.prems" have eq: "decimal (n div 10) @ [char_of (48 + n mod 10)] = CHR ''0'' # cs"
      by (subst (asm) decimal.simps) simp
    obtain c rest where front: "decimal (n div 10) = c # rest"
      using decimal_not_Nil [of "n div 10"] by (cases "decimal (n div 10)") auto
    with eq have "c = CHR ''0''" by simp
    with front "1.IH" [OF False] have "n div 10 = 0" by blast
    with False show ?thesis by simp
  qed
qed

lemma parseUintLoop_append:
  "parseUintLoop cutoff maxVal (xs @ ys) n =
     (case parseUintLoop cutoff maxVal xs n of
        (k, None) \<Rightarrow> parseUintLoop cutoff maxVal ys k
      | (k, Some e) \<Rightarrow> (k, Some e))"
  by (induction xs arbitrary: n) (simp_all add: Let_def)

lemma parseUintLoop_digit:
  fixes k :: uint64
  assumes "d < 10" and "unat k * 10 + d < 2 ^ 64"
  shows "parseUintLoop 1844674407370955162 18446744073709551615 [char_of (48 + d)] k =
           (of_nat (unat k * 10 + d), None)"
proof -
  let ?n1 = "k * 10 + of_nat d :: uint64"
  from assms have small: "unat k < 1844674407370955162"
    by simp
  then have cut: "\<not> (1844674407370955162 :: uint64) \<le> k"
    by (simp add: word_le_nat_alt)
  have n1: "?n1 = of_nat (unat k * 10 + d)"
    by simp
  from assms(2) have "unat k * 10 + d < 2 ^ LENGTH(64)"
    by simp
  from of_nat_inverse [OF n1 [symmetric] this] have u1: "unat ?n1 = unat k * 10 + d" .
  from small have "unat k * unat (10 :: uint64) < 2 ^ LENGTH(64)"
    by simp
  then have "unat (k * 10) = unat k * unat (10 :: uint64)"
    by (simp only: unat_mult_lem)
  then have u10: "unat (k * 10) = unat k * 10"
    by simp
  from u1 u10 have nowrap: "\<not> ?n1 < k * 10"
    by (simp add: word_less_nat_alt)
  have top: "\<not> (18446744073709551615 :: uint64) < ?n1"
    using unsigned_less [of ?n1, where 'a = nat] by (simp add: word_less_nat_alt)
  from digit_char(1,2) [OF assms(1)] cut nowrap top
  have "parseUintLoop 1844674407370955162 18446744073709551615 [char_of (48 + d)] k =
      (?n1, None)"
    by (simp add: Let_def)
  then show ?thesis
    by (simp only: n1)
qed

lemma parseUintLoop_decimal:
  "n < 2 ^ 64 \<Longrightarrow>
   parseUintLoop 1844674407370955162 18446744073709551615 (decimal n) 0 = (of_nat n, None)"
proof (induction n rule: decimal.induct)
  case (1 n)
  show ?case
  proof (cases "n < 10")
    case True
    with "1.prems" parseUintLoop_digit [of n 0] show ?thesis
      by (subst decimal.simps) simp
  next
    case False
    from "1.prems" have "n div 10 < 2 ^ 64" by simp
    from "1.IH" [OF False this]
    have front: "parseUintLoop 1844674407370955162 18446744073709551615 (decimal (n div 10)) 0 =
        (of_nat (n div 10), None)" .
    from "1.prems" have "n div 10 < 2 ^ LENGTH(64)"
      by simp
    from of_nat_inverse [OF refl this] have u: "unat (of_nat (n div 10) :: uint64) = n div 10" .
    have "n mod 10 < 10" by simp
    moreover from "1.prems" u have "unat (of_nat (n div 10) :: uint64) * 10 + n mod 10 < 2 ^ 64"
      by simp
    ultimately
    have "parseUintLoop 1844674407370955162 18446744073709551615 [char_of (48 + n mod 10)] (of_nat (n div 10)) =
        (of_nat (unat (of_nat (n div 10) :: uint64) * 10 + n mod 10), None)"
      by (rule parseUintLoop_digit)
    with u have "parseUintLoop 1844674407370955162 18446744073709551615 [char_of (48 + n mod 10)]
        (of_nat (n div 10)) = (of_nat n, None)"
      by (simp add: mult.commute)
    with front False show ?thesis
      by (subst decimal.simps) (simp add: parseUintLoop_append)
  qed
qed

lemma ParseUint_FormatUint: "ParseUint (FormatUint v) 64 = (v, None)"
proof -
  have "unat v < 2 ^ 64"
    using unsigned_less [of v, where 'a = nat] by simp
  from parseUintLoop_decimal [OF this]
  have "parseUintLoop 1844674407370955162 18446744073709551615 (decimal (unat v)) 0 = (v, None)"
    by simp
  then have loop: "parseUintLoop (maxUint64 div 10 + 1) (push_bit 64 1 - 1) (decimal (unat v)) 0
      = (v, None)"
    by (simp add: maxUint64_def)
  show ?thesis
    unfolding ParseUint_def FormatUint_def loop by (simp add: decimal_not_Nil)
qed

lemma stripType_renderUint64: "stripType (renderUint64 v) = Return (FormatUint v)"
proof -
  have "CHR '' '' \<in> set (renderUint64 v)"
    by (simp add: renderUint64_def)
  from stripType_Return [OF this] decimal_no_space [of "unat v"] show ?thesis
    by (auto simp: renderUint64_def FormatUint_def)
qed

lemma FormatUint_canonical: "FormatUint v = ''0'' \<or> (\<forall>cs. FormatUint v \<noteq> CHR ''0'' # cs)"
  using decimal_leading_zero [of "unat v"] by (auto simp: FormatUint_def)

text \<open>
  Every rendering of an unsigned 64-bit value has a value token, which is the text \<^verbatim>\<open>0\<close> or
  does not begin with the digit 0, and which decodes to the value.
\<close>

lemma uint64_rendering:
  "stripType (renderUint64 v) = Return (FormatUint v)"
  "FormatUint v = ''0'' \<or> (\<forall>cs. FormatUint v \<noteq> CHR ''0'' # cs)"
  "ParseUint (FormatUint v) 64 = (v, None)"
  by (rule stripType_renderUint64, rule FormatUint_canonical, rule ParseUint_FormatUint)

text \<open>
  Claim C3. In a run of \<^verbatim>\<open>postAllManagerProps\<close> that returns, take a milestone name whose
  property was read, its value token \<open>tok\<close> being the text \<^verbatim>\<open>0\<close> or a text that does not
  begin with the digit 0, as is every rendering of an unsigned 64-bit value
  (\<open>uint64_rendering\<close>). A record tagged with the name is among the records the run added
  if and only if \<open>tok\<close> decodes as an unsigned 64-bit integer and the decoded value is not
  zero; the record carries the decoded value. A value that is zero, and a token that does
  not decode, are not sent.
\<close>

theorem manager_emission_rule:
  assumes run: "postAllManagerProps conn order g acc = (Return res, g', acc')"
    and key: "name \<in> set order" "managerProps g name \<noteq> None"
    and read: "GetManagerProperty conn name = Inr raw"
    and token: "stripType raw = Return tok"
    and canonical: "tok = ''0'' \<or> (\<forall>cs. tok \<noteq> CHR ''0'' # cs)"
  shows "((\<exists>m \<in> set (newMetrics acc acc'). tagMap m = [(''SystemTimestamp'', name)]) \<longleftrightarrow>
            (\<exists>v. ParseUint tok 64 = (v, None) \<and> v \<noteq> 0)) \<and>
         (\<forall>m \<in> set (newMetrics acc acc'). tagMap m = [(''SystemTimestamp'', name)] \<longrightarrow>
            m = \<lparr>metricName = measurement,
                  fieldMap = [(''SystemTimestampValue'', fst (ParseUint tok 64))],
                  tagMap = [(''SystemTimestamp'', name)]\<rparr>)"
proof -
  let ?sent = "\<exists>m \<in> set (newMetrics acc acc'). tagMap m = [(''SystemTimestamp'', name)]"
  let ?nonzero = "\<exists>v. ParseUint tok 64 = (v, None) \<and> v \<noteq> 0"
  from manager_emission_token [OF run key read] token
  have literal: "?sent \<longleftrightarrow> tok \<noteq> [] \<and> tok \<noteq> ''0'' \<and> snd (ParseUint tok 64) = None"
    and carried: "\<forall>m \<in> set (newMetrics acc acc'). tagMap m = [(''SystemTimestamp'', name)] \<longrightarrow>
            m = \<lparr>metricName = measurement,
                  fieldMap = [(''SystemTimestampValue'', fst (ParseUint tok 64))],
                  tagMap = [(''SystemTimestamp'', name)]\<rparr>"
    and leading: "tok \<noteq> [] \<and> hd tok \<noteq> CHR ''0'' \<longrightarrow>
            (?sent \<longleftrightarrow> snd (ParseUint tok 64) = None \<and> fst (ParseUint tok 64) \<noteq> 0)"
    by auto
  have pair: "?nonzero \<longleftrightarrow> snd (ParseUint tok 64) = None \<and> fst (ParseUint tok 64) \<noteq> 0"
    by (cases "ParseUint tok 64") auto
  have iff: "?sent \<longleftrightarrow> ?nonzero"
  proof (cases "tok = ''0''")
    case True
    with literal have "\<not> ?sent" by simp
    moreover from True ParseUint_zero_token(2) have "\<not> ?nonzero" by simp
    ultimately show ?thesis by simp
  next
    case False
    show ?thesis
    proof (cases tok)
      case Nil
      with literal have "\<not> ?sent" by simp
      moreover from Nil ParseUint_zero_token(1) have "\<not> ?nonzero" by auto
      ultimately show ?thesis by simp
    next
      case (Cons c cs)
      with canonical False have "c \<noteq> CHR ''0''" by auto
      with Cons leading pair show ?thesis by simp
    qed
  qed
  from iff carried show ?thesis by (rule conjI)
qed

text \<open>
  Claim C6, as the code has it. After a run of \<^verbatim>\<open>postAllManagerProps\<close> that returns, for
  every milestone name: when the property was read, the map holds the value token read on
  this run (also when the token does not decode); when the read failed, the map holds for
  the name what it held before the run. Entries of other keys and \<^verbatim>\<open>collectionDone\<close> are
  unchanged.
\<close>

theorem manager_props_written:
  assumes run: "postAllManagerProps conn order g acc = (Return res, g', acc')"
    and key: "name \<in> set order" "managerProps g name \<noteq> None"
  shows "(\<forall>raw. GetManagerProperty conn name = Inr raw \<longrightarrow>
            (\<exists>tok. stripType raw = Return tok \<and> managerProps g' name = Some tok)) \<and>
         (\<forall>err. GetManagerProperty conn name = Inl err \<longrightarrow>
            managerProps g' name = managerProps g name) \<and>
         (\<forall>other. other \<notin> set order \<longrightarrow> managerProps g' other = managerProps g other) \<and>
         collectionDone g' = collectionDone g"
proof -
  let ?names = "filter (\<lambda>name. managerProps g name \<noteq> None) order"
  from run have loop: "postAllManagerProps_loop conn ?names g acc = (Return res, g', acc')"
    by (simp add: postAllManagerProps_def)
  from key have name: "name \<in> set ?names" by simp
  note props = manager_loop_props [OF loop]
  have 1: "\<exists>tok. stripType raw = Return tok \<and> managerProps g' name = Some tok"
    if read: "GetManagerProperty conn name = Inr raw" for raw
  proof -
    from manager_loop_no_panic [OF loop name] getManagerProp_read [OF read]
    obtain tok where tok: "stripType raw = Return tok"
      and got: "getManagerProp conn name = Return (Inr tok)"
      by blast
    from manager_loop_stored [OF loop name got] tok show ?thesis by blast
  qed
  have 2: "managerProps g' name = managerProps g name"
    if "GetManagerProperty conn name = Inl err" for err
  proof -
    from that have "getManagerProp conn name = Return (Inl err)"
      by (simp add: getManagerProp_def)
    with props show ?thesis by auto
  qed
  have 3: "managerProps g' other = managerProps g other" if "other \<notin> set order" for other
    using props that by auto
  from props have 4: "collectionDone g' = collectionDone g" by simp
  from 1 2 3 4 show ?thesis by blast
qed

lemma initGlobals_keys:
  "filter (\<lambda>name. managerProps initGlobals name \<noteq> None) managerPropNames = managerPropNames"
  by (simp add: initGlobals_def managerPropNames_def)

lemma postAllManagerProps_init:
  "postAllManagerProps conn managerPropNames initGlobals acc =
     postAllManagerProps_loop conn managerPropNames initGlobals acc"
  by (simp only: postAllManagerProps_def initGlobals_keys)

lemma bootedConn_manager_reads:
  "GetManagerProperty bootedConn ''UserspaceTimestampMonotonic'' = Inr ''@t 500''"
  "GetManagerProperty bootedConn ''FirmwareTimestampMonotonic'' = Inr ''@t 0''"
  "GetManagerProperty bootedConn ''LoaderTimestampMonotonic'' = Inl (BusError ''no such property'')"
  by (simp_all add: bootedConn_def)

lemma stripType_examples:
  "stripType ''@t 500'' = Return ''500''"
  "stripType ''@t 0'' = Return ''0''"
  "stripType ''@t 9000'' = Return ''9000''"
  by (simp_all add: stripType_def)

lemma bootedConn_no_panic: "\<exists>x. getManagerProp bootedConn name = Return x"
  by (simp add: getManagerProp_def bootedConn_def stripType_examples)

lemma booted_manager_pass:
  "postAllManagerProps bootedConn managerPropNames initGlobals emptyAcc =
     (Return None, afterFirstPass,
      snd (snd (postAllManagerProps bootedConn managerPropNames initGlobals emptyAcc)))"
proof -
  have "fst (postAllManagerProps bootedConn managerPropNames initGlobals emptyAcc) = Return None"
    unfolding postAllManagerProps_def
    by (rule manager_loop_returns) (simp add: bootedConn_no_panic)
  then show ?thesis
    by (simp add: afterFirstPass_def prod_eq_iff)
qed

lemma managerPropNames_member:
  "''UserspaceTimestampMonotonic'' \<in> set managerPropNames"
  "''FirmwareTimestampMonotonic'' \<in> set managerPropNames"
  "''LoaderTimestampMonotonic'' \<in> set managerPropNames"
  by (simp_all add: managerPropNames_def)

lemma initGlobals_present:
  "managerProps initGlobals ''UserspaceTimestampMonotonic'' \<noteq> None"
  "managerProps initGlobals ''FirmwareTimestampMonotonic'' \<noteq> None"
  "managerProps initGlobals ''LoaderTimestampMonotonic'' \<noteq> None"
  by (simp_all add: initGlobals_def managerPropNames_def)

theorem manager_emission_rule_witness:
  "(\<exists>m \<in> set (newMetrics emptyAcc
        (snd (snd (postAllManagerProps bootedConn managerPropNames initGlobals emptyAcc)))).
      tagMap m = [(''SystemTimestamp'', ''UserspaceTimestampMonotonic'')]) \<and>
   \<not> (\<exists>m \<in> set (newMetrics emptyAcc
        (snd (snd (postAllManagerProps bootedConn managerPropNames initGlobals emptyAcc)))).
      tagMap m = [(''SystemTimestamp'', ''FirmwareTimestampMonotonic'')])"
proof -
  let ?acc' = "snd (snd (postAllManagerProps bootedConn managerPropNames initGlobals emptyAcc))"
  note rule = manager_emission_rule [OF booted_manager_pass]
  have shape: "''500'' = ''0'' \<or> (\<forall>cs. ''500'' \<noteq> CHR ''0'' # cs)"
    "''0'' = ''0'' \<or> (\<forall>cs. ''0'' \<noteq> CHR ''0'' # cs)"
    by simp_all
  from rule [OF managerPropNames_member(1) initGlobals_present(1) bootedConn_manager_reads(1)
      stripType_examples(1) shape(1)]
  have "(\<exists>m \<in> set (newMetrics emptyAcc ?acc').
            tagMap m = [(''SystemTimestamp'', ''UserspaceTimestampMonotonic'')]) \<longleftrightarrow>
        (\<exists>v. ParseUint ''500'' 64 = (v, None) \<and> v \<noteq> 0)"
    by (rule conjunct1)
  then have 1: "\<exists>m \<in> set (newMetrics emptyAcc ?acc').
            tagMap m = [(''SystemTimestamp'', ''UserspaceTimestampMonotonic'')]"
    by (simp add: bootedGlobals_reference)
  from rule [OF managerPropNames_member(2) initGlobals_present(2) bootedConn_manager_reads(2)
      stripType_examples(2) shape(2)]
  have "(\<exists>m \<in> set (newMetrics emptyAcc ?acc').
            tagMap m = [(''SystemTimestamp'', ''FirmwareTimestampMonotonic'')]) \<longleftrightarrow>
        (\<exists>v. ParseUint ''0'' 64 = (v, None) \<and> v \<noteq> 0)"
    by (rule conjunct1)
  then have 2: "\<not> (\<exists>m \<in> set (newMetrics emptyAcc ?acc').
            tagMap m = [(''SystemTimestamp'', ''FirmwareTimestampMonotonic'')])"
    by (simp add: ParseUint_zero_token)
  from 1 2 show ?thesis by (rule conjI)
qed

lemma afterFirstPass_reference:
  "managerProps afterFirstPass ''UserspaceTimestampMonotonic'' = Some ''500''"
proof -
  have loop: "postAllManagerProps_loop bootedConn managerPropNames initGlobals emptyAcc =
     (Return None, afterFirstPass,
      snd (snd (postAllManagerProps bootedConn managerPropNames initGlobals emptyAcc)))"
    using booted_manager_pass by (simp only: postAllManagerProps_init)
  have "getManagerProp bootedConn ''UserspaceTimestampMonotonic'' = Return (Inr ''500'')"
    by (simp add: getManagerProp_def bootedConn_manager_reads stripType_examples)
  from manager_loop_stored [OF loop managerPropNames_member(1) this] show ?thesis .
qed

theorem manager_props_written_witness:
  "managerProps afterFirstPass ''UserspaceTimestampMonotonic'' = Some ''500'' \<and>
   managerProps afterFirstPass ''LoaderTimestampMonotonic'' =
     managerProps initGlobals ''LoaderTimestampMonotonic''"
proof -
  note rule = manager_props_written [OF booted_manager_pass]
  from rule [OF managerPropNames_member(1) initGlobals_present(1)] bootedConn_manager_reads(1)
  obtain tok where "stripType ''@t 500'' = Return tok"
    and "managerProps afterFirstPass ''UserspaceTimestampMonotonic'' = Some tok"
    by blast
  then have 1: "managerProps afterFirstPass ''UserspaceTimestampMonotonic'' = Some ''500''"
    by (simp add: stripType_examples)
  from rule [OF managerPropNames_member(3) initGlobals_present(3)] bootedConn_manager_reads(3)
  have 2: "managerProps afterFirstPass ''LoaderTimestampMonotonic'' =
     managerProps initGlobals ''LoaderTimestampMonotonic''"
    by blast
  from 1 2 show ?thesis by (rule conjI)
qed

text \<open>
  A first run stores the start of userspace, 500. On a second run no property can be read:
  the run returns, and the map still holds 500, the value of the earlier run, not an empty
  value.
\<close>

theorem stale_value_counterexample:
  "managerProps afterFirstPass ''UserspaceTimestampMonotonic'' = Some ''500'' \<and>
   GetManagerProperty silentConn ''UserspaceTimestampMonotonic'' = Inl (BusError ''no reply'') \<and>
   fst (postAllManagerProps silentConn managerPropNames afterFirstPass emptyAcc) = Return None \<and>
   managerProps
     (fst (snd (postAllManagerProps silentConn managerPropNames afterFirstPass emptyAcc)))
     ''UserspaceTimestampMonotonic'' = Some ''500''"
proof -
  have read: "getManagerProp silentConn name = Return (Inl (BusError ''no reply''))" for name
    by (simp add: getManagerProp_def silentConn_def)
  have ret: "fst (postAllManagerProps silentConn managerPropNames afterFirstPass emptyAcc) = Return None"
    unfolding postAllManagerProps_def
    by (rule manager_loop_returns) (simp add: read)
  have "postAllManagerProps_loop silentConn
          (filter (\<lambda>name. managerProps afterFirstPass name \<noteq> None) managerPropNames)
          afterFirstPass emptyAcc =
        (fst (postAllManagerProps silentConn managerPropNames afterFirstPass emptyAcc),
         fst (snd (postAllManagerProps silentConn managerPropNames afterFirstPass emptyAcc)),
         snd (snd (postAllManagerProps silentConn managerPropNames afterFirstPass emptyAcc)))"
    by (simp add: postAllManagerProps_def)
  from manager_loop_props [OF this] read
  have "managerProps
     (fst (snd (postAllManagerProps silentConn managerPropNames afterFirstPass emptyAcc)))
     ''UserspaceTimestampMonotonic'' = managerProps afterFirstPass ''UserspaceTimestampMonotonic''"
    by auto
  with afterFirstPass_reference ret show ?thesis
    by (simp add: silentConn_def)
qed

subsection \<open>The collection entry point\<close>

lemma Gather_one_shot:
  assumes "Periodic s = False" and "collectionDone g"
  shows "snd (Gather s env g acc) = (g, acc)"
proof (cases "bootIsFinished env")
  case (Panic p)
  then show ?thesis by (simp add: Gather_def)
next
  case (Return b)
  with assms show ?thesis by (cases b) (simp_all add: Gather_def)
qed

lemma GatherTicks_one_shot:
  assumes "\<forall>(s, env) \<in> set ticks. Periodic s = False" and "collectionDone g"
  shows "GatherTicks ticks g acc = (g, acc)"
  using assms(1)
proof (induction ticks)
  case Nil
  then show ?case by simp
next
  case (Cons tick ticks)
  obtain s env where tick: "tick = (s, env)" by (cases tick)
  with Cons.prems have "Periodic s = False" by simp
  from Gather_one_shot [OF this assms(2), of env acc]
  have "Gather s env g acc = (fst (Gather s env g acc), g, acc)"
    by (simp add: prod_eq_iff)
  with tick Cons show ?case
    by (metis (no_types, lifting) GatherTicks.simps(2) case_prod_conv list.set_intros(2))
qed

lemma postAllManagerProps_done:
  "postAllManagerProps conn order g acc = (r, g1, acc1) \<Longrightarrow>
   collectionDone g1 = collectionDone g"
  unfolding postAllManagerProps_def by (blast dest: manager_loop_props)

lemma Gather_panic:
  "bootIsFinished env = Panic p \<Longrightarrow> Gather s env g acc = (Panic p, g, acc)"
  by (simp add: Gather_def)

lemma Gather_unready:
  "bootIsFinished env = Return False \<Longrightarrow> Gather s env g acc = (Return None, g, acc)"
  by (simp add: Gather_def)

lemma Gather_done:
  "bootIsFinished env = Return True \<Longrightarrow> Periodic s = False \<Longrightarrow> collectionDone g \<Longrightarrow>
   Gather s env g acc = (Return None, g, acc)"
  by (simp add: Gather_def)

lemma Gather_refused:
  "bootIsFinished env = Return True \<Longrightarrow> \<not> (Periodic s = False \<and> collectionDone g) \<Longrightarrow>
   passConnection env = Inl err \<Longrightarrow> Gather s env g acc = (Return (Some err), g, acc)"
  by (simp add: Gather_def)

lemma Gather_pass:
  "bootIsFinished env = Return True \<Longrightarrow> \<not> (Periodic s = False \<and> collectionDone g) \<Longrightarrow>
   passConnection env = Inr conn \<Longrightarrow>
   postAllManagerProps conn (rangeOrder env) g acc = (r1, g1, acc1) \<Longrightarrow>
   Gather s env g acc =
     (case r1 of
        Panic p \<Rightarrow> (Panic p, g1, acc1)
      | Return (Some err) \<Rightarrow> (Return (Some err), g1, AddError acc1 err)
      | Return None \<Rightarrow>
          (case postAllUnitTimingData conn acc1 s g1 of
             (Panic p, acc2) \<Rightarrow> (Panic p, g1, acc2)
           | (Return (Some err), acc2) \<Rightarrow> (Return (Some err), g1, AddError acc2 err)
           | (Return None, acc2) \<Rightarrow> (Return None, g1\<lparr>collectionDone := True\<rparr>, acc2)))"
  by (auto simp: Gather_def split: go.splits option.splits)

text \<open>The ways a call of \<^verbatim>\<open>Gather\<close> ends.\<close>

lemma Gather_cases:
  assumes "Gather s env g acc = (r, g', acc')"
  obtains
    (unready) "g' = g" "acc' = acc" "r = Return None \<or> (\<exists>p. r = Panic p)"
  | (refused) err where "g' = g" "acc' = acc" "r = Return (Some err)"
  | (manager) conn p acc1 where "passConnection env = Inr conn"
      "postAllManagerProps conn (rangeOrder env) g acc = (Panic p, g', acc1)" "r = Panic p"
  | (manager_error) conn err acc1 where "passConnection env = Inr conn"
      "postAllManagerProps conn (rangeOrder env) g acc = (Return (Some err), g', acc1)"
      "r = Return (Some err)"
  | (units) conn acc1 acc2 where "passConnection env = Inr conn"
      "postAllManagerProps conn (rangeOrder env) g acc = (Return None, g', acc1)"
      "postAllUnitTimingData conn acc1 s g' = (r, acc2)" "r \<noteq> Return None"
  | (success) conn g1 acc1 where "bootIsFinished env = Return True"
      "passConnection env = Inr conn"
      "postAllManagerProps conn (rangeOrder env) g acc = (Return None, g1, acc1)"
      "postAllUnitTimingData conn acc1 s g1 = (Return None, acc')"
      "g' = g1\<lparr>collectionDone := True\<rparr>" "r = Return None"
proof (cases "bootIsFinished env")
  case (Panic p)
  from Gather_panic [OF this, of s g acc] assms unready show ?thesis by simp
next
  case (Return b)
  show ?thesis
  proof (cases b)
    case False
    with Return have "bootIsFinished env = Return False" by simp
    from Gather_unready [OF this, of s g acc] assms unready show ?thesis by simp
  next
    case True
    with Return have fin: "bootIsFinished env = Return True" by simp
    show ?thesis
    proof (cases "Periodic s = False \<and> collectionDone g")
      case True
      with Gather_done [OF fin, of s g acc] assms unready show ?thesis by simp
    next
      case go: False
      show ?thesis
      proof (cases "passConnection env")
        case (Inl err)
        have "Gather s env g acc = (Return (Some err), g, acc)"
          by (rule Gather_refused [OF fin go Inl])
        with assms have "g' = g" "acc' = acc" "r = Return (Some err)"
          by simp_all
        then show ?thesis by (rule refused)
      next
        case (Inr conn)
        obtain r1 g1 acc1 where
          mgr: "postAllManagerProps conn (rangeOrder env) g acc = (r1, g1, acc1)"
          by (cases "postAllManagerProps conn (rangeOrder env) g acc")
        note pass = Gather_pass [OF fin go Inr mgr]
        show ?thesis
        proof (cases r1)
          case (Panic p)
          with pass assms have "r = Panic p" "g' = g1" by simp_all
          with Panic mgr Inr manager show ?thesis by simp
        next
          case r1: (Return res1)
          show ?thesis
          proof (cases res1)
            case (Some err)
            with r1 pass assms have "r = Return (Some err)" "g' = g1" by simp_all
            with Some r1 mgr Inr manager_error show ?thesis by simp
          next
            case None
            obtain r2 acc2 where un: "postAllUnitTimingData conn acc1 s g1 = (r2, acc2)"
              by (cases "postAllUnitTimingData conn acc1 s g1")
            show ?thesis
            proof (cases "r2 = Return None")
              case True
              with un None r1 pass assms
              have "r = Return None" "g' = g1\<lparr>collectionDone := True\<rparr>" "acc' = acc2"
                by simp_all
              with True un None r1 mgr Inr fin success show ?thesis by simp
            next
              case False
              with un None r1 pass assms have "g' = g1 \<and> r = r2"
                by (cases r2) (auto split: option.splits)
              with False un None r1 mgr Inr units show ?thesis by simp
            qed
          qed
        qed
      qed
    qed
  qed
qed

text \<open>
  Claim C7. With \<^verbatim>\<open>Periodic\<close> false and \<^verbatim>\<open>collectionDone\<close> true, a call of \<^verbatim>\<open>Gather\<close> leaves the
  package variables and the accumulator as they were, so it adds no record, and so does
  every sequence of further ticks. \<^verbatim>\<open>collectionDone\<close> turns true only in a call in which the
  boot had finished, the connection was opened, both collectors returned \<^verbatim>\<open>nil\<close> and
  \<^verbatim>\<open>Gather\<close> returned \<^verbatim>\<open>nil\<close>; a call that returns an error, or panics, leaves it as it was.
  Such a fully successful call does set it.
\<close>

theorem one_shot_collection:
  "(Periodic s = False \<and> collectionDone g \<longrightarrow>
      snd (Gather s env g acc) = (g, acc) \<and>
      newMetrics acc (snd (snd (Gather s env g acc))) = [] \<and>
      GatherTicks (map (Pair s) envs) g acc = (g, acc)) \<and>
   (Gather s env g acc = (r, g', acc') \<and> \<not> collectionDone g \<and> collectionDone g' \<longrightarrow>
      r = Return None \<and> bootIsFinished env = Return True \<and>
      (\<exists>conn g1 acc1.
         passConnection env = Inr conn \<and>
         postAllManagerProps conn (rangeOrder env) g acc = (Return None, g1, acc1) \<and>
         postAllUnitTimingData conn acc1 s g1 = (Return None, acc'))) \<and>
   (Gather s env g acc = (r, g', acc') \<and> r \<noteq> Return None \<longrightarrow>
      collectionDone g' = collectionDone g) \<and>
   (bootIsFinished env = Return True \<and> \<not> (Periodic s = False \<and> collectionDone g) \<and>
    passConnection env = Inr conn \<and>
    postAllManagerProps conn (rangeOrder env) g acc = (Return None, g1, acc1) \<and>
    postAllUnitTimingData conn acc1 s g1 = (Return None, acc2) \<longrightarrow>
      Gather s env g acc = (Return None, g1\<lparr>collectionDone := True\<rparr>, acc2))"
proof (intro conjI impI)
  assume a: "bootIsFinished env = Return True \<and> \<not> (Periodic s = False \<and> collectionDone g) \<and>
    passConnection env = Inr conn \<and>
    postAllManagerProps conn (rangeOrder env) g acc = (Return None, g1, acc1) \<and>
    postAllUnitTimingData conn acc1 s g1 = (Return None, acc2)"
  then have fin: "bootIsFinished env = Return True"
    and go: "\<not> (Periodic s = False \<and> collectionDone g)"
    and conn: "passConnection env = Inr conn"
    and mgr: "postAllManagerProps conn (rangeOrder env) g acc = (Return None, g1, acc1)"
    and un: "postAllUnitTimingData conn acc1 s g1 = (Return None, acc2)"
    by blast+
  from Gather_pass [OF fin go conn mgr] un
  show "Gather s env g acc = (Return None, g1\<lparr>collectionDone := True\<rparr>, acc2)"
    by simp
next
  assume a: "Periodic s = False \<and> collectionDone g"
  then show same: "snd (Gather s env g acc) = (g, acc)"
    by (simp add: Gather_one_shot)
  then show "newMetrics acc (snd (snd (Gather s env g acc))) = []"
    by (simp add: newMetrics_def)
  from a have "\<forall>(s, env) \<in> set (map (Pair s) envs). Periodic s = False"
    by auto
  with a show "GatherTicks (map (Pair s) envs) g acc = (g, acc)"
    by (simp add: GatherTicks_one_shot)
next
  assume a: "Gather s env g acc = (r, g', acc') \<and> \<not> collectionDone g \<and> collectionDone g'"
  then have run: "Gather s env g acc = (r, g', acc')"
    and flip: "collectionDone g' \<noteq> collectionDone g"
    by simp_all
  from run have "r = Return None \<and> bootIsFinished env = Return True \<and>
      (\<exists>conn g1 acc1.
         passConnection env = Inr conn \<and>
         postAllManagerProps conn (rangeOrder env) g acc = (Return None, g1, acc1) \<and>
         postAllUnitTimingData conn acc1 s g1 = (Return None, acc'))"
  proof (cases rule: Gather_cases)
    case unready
    with flip show ?thesis by simp
  next
    case (refused err)
    with flip show ?thesis by simp
  next
    case (manager conn p acc1)
    with flip postAllManagerProps_done show ?thesis by blast
  next
    case (manager_error conn err acc1)
    with flip postAllManagerProps_done show ?thesis by blast
  next
    case (units conn acc1 acc2)
    with flip postAllManagerProps_done show ?thesis by blast
  next
    case (success conn g1 acc1)
    then show ?thesis by blast
  qed
  then show "r = Return None" and "bootIsFinished env = Return True"
    and "\<exists>conn g1 acc1.
         passConnection env = Inr conn \<and>
         postAllManagerProps conn (rangeOrder env) g acc = (Return None, g1, acc1) \<and>
         postAllUnitTimingData conn acc1 s g1 = (Return None, acc')"
    by simp_all
next
  assume a: "Gather s env g acc = (r, g', acc') \<and> r \<noteq> Return None"
  then have run: "Gather s env g acc = (r, g', acc')" and r: "r \<noteq> Return None"
    by simp_all
  from run show "collectionDone g' = collectionDone g"
  proof (cases rule: Gather_cases)
    case unready
    then show ?thesis by simp
  next
    case (refused err)
    then show ?thesis by simp
  next
    case (manager conn p acc1)
    with postAllManagerProps_done show ?thesis by blast
  next
    case (manager_error conn err acc1)
    with postAllManagerProps_done show ?thesis by blast
  next
    case (units conn acc1 acc2)
    with postAllManagerProps_done show ?thesis by blast
  next
    case (success conn g1 acc1)
    with r show ?thesis by simp
  qed
qed

lemma bootedEnv_finished: "bootIsFinished bootedEnv = Return True"
  by (simp add: eval_boot eval_defs bootedEnv_def bootedConn_def)

lemma booted_unit_loop:
  "fst (postAllUnitTimingData bootedConn acc newSystemdTimings afterFirstPass) = Return None"
  by (simp add: postAllUnitTimingData_def bootedConn_list afterFirstPass_reference
      bootedGlobals_reference bootedConn_a_service bootedConn_units HasSuffix_def)

lemma first_tick:
  "Gather newSystemdTimings bootedEnv initGlobals emptyAcc =
     (Return None, afterFirstTick,
      snd (snd (Gather newSystemdTimings bootedEnv initGlobals emptyAcc)))"
  "collectionDone afterFirstTick"
proof -
  have go: "\<not> (Periodic newSystemdTimings = False \<and> collectionDone initGlobals)"
    by (simp add: initGlobals_def)
  have conn: "passConnection bootedEnv = Inr bootedConn"
    by (simp add: bootedEnv_def)
  have order: "rangeOrder bootedEnv = managerPropNames"
    by (simp add: bootedEnv_def)
  note pass = Gather_pass [OF bootedEnv_finished go conn booted_manager_pass [folded order]]
  obtain acc2 where un: "postAllUnitTimingData bootedConn
      (snd (snd (postAllManagerProps bootedConn managerPropNames initGlobals emptyAcc)))
      newSystemdTimings afterFirstPass = (Return None, acc2)"
    using booted_unit_loop by (metis prod.collapse)
  from pass un
  have g: "Gather newSystemdTimings bootedEnv initGlobals emptyAcc =
      (Return None, afterFirstPass\<lparr>collectionDone := True\<rparr>, acc2)"
    by (simp add: order)
  then show "Gather newSystemdTimings bootedEnv initGlobals emptyAcc =
     (Return None, afterFirstTick,
      snd (snd (Gather newSystemdTimings bootedEnv initGlobals emptyAcc)))"
    by (simp add: afterFirstTick_def)
  from g show "collectionDone afterFirstTick"
    by (simp add: afterFirstTick_def)
qed

lemma lost_tick:
  "Gather newSystemdTimings lostEnv initGlobals emptyAcc =
     (Return (Some (BusError ''connection refused'')), initGlobals, emptyAcc)"
proof -
  have fin: "bootIsFinished lostEnv = Return True"
    by (simp add: eval_boot eval_defs lostEnv_def bootedConn_def)
  have go: "\<not> (Periodic newSystemdTimings = False \<and> collectionDone initGlobals)"
    by (simp add: initGlobals_def)
  have "passConnection lostEnv = Inl (BusError ''connection refused'')"
    by (simp add: lostEnv_def)
  from Gather_refused [OF fin go this] show ?thesis .
qed

theorem one_shot_collection_witness:
  "GatherTicks (map (Pair newSystemdTimings) [bootedEnv, lateBootEnv]) afterFirstTick emptyAcc
     = (afterFirstTick, emptyAcc) \<and>
   fst (Gather newSystemdTimings bootedEnv initGlobals emptyAcc) = Return None \<and>
   collectionDone afterFirstTick \<and>
   collectionDone (fst (snd (Gather newSystemdTimings lostEnv initGlobals emptyAcc)))
     = collectionDone initGlobals"
proof -
  note stays = one_shot_collection [THEN conjunct1]
  note only = one_shot_collection [THEN conjunct2, THEN conjunct1]
  note failed = one_shot_collection [THEN conjunct2, THEN conjunct2, THEN conjunct1]
  note sets = one_shot_collection [THEN conjunct2, THEN conjunct2, THEN conjunct2]
  have off: "Periodic newSystemdTimings = False"
    by (simp add: newSystemdTimings_def defaultPeriodic_def)
  have fresh: "\<not> collectionDone initGlobals"
    by (simp add: initGlobals_def)
  let ?acc1 = "snd (snd (postAllManagerProps bootedConn managerPropNames initGlobals emptyAcc))"
  let ?acc2 = "snd (postAllUnitTimingData bootedConn ?acc1 newSystemdTimings afterFirstPass)"
  have "bootIsFinished bootedEnv = Return True \<and>
    \<not> (Periodic newSystemdTimings = False \<and> collectionDone initGlobals) \<and>
    passConnection bootedEnv = Inr bootedConn \<and>
    postAllManagerProps bootedConn (rangeOrder bootedEnv) initGlobals emptyAcc =
      (Return None, afterFirstPass, ?acc1) \<and>
    postAllUnitTimingData bootedConn ?acc1 newSystemdTimings afterFirstPass =
      (Return None, ?acc2)"
    using bootedEnv_finished fresh booted_manager_pass booted_unit_loop [of ?acc1]
    by (simp add: bootedEnv_def prod_eq_iff)
  then have tick: "Gather newSystemdTimings bootedEnv initGlobals emptyAcc =
      (Return None, afterFirstPass\<lparr>collectionDone := True\<rparr>, ?acc2)"
    by (rule sets [rule_format])
  then have flag: "collectionDone afterFirstTick"
    by (simp add: afterFirstTick_def)
  from tick have first: "Gather newSystemdTimings bootedEnv initGlobals emptyAcc =
      (fst (Gather newSystemdTimings bootedEnv initGlobals emptyAcc), afterFirstTick, ?acc2)"
    by (simp add: afterFirstTick_def)
  from off flag have "Periodic newSystemdTimings = False \<and> collectionDone afterFirstTick"
    by (rule conjI)
  from stays [rule_format, OF this, of bootedEnv emptyAcc "[bootedEnv, lateBootEnv]"]
  have 1: "GatherTicks (map (Pair newSystemdTimings) [bootedEnv, lateBootEnv])
      afterFirstTick emptyAcc = (afterFirstTick, emptyAcc)"
    by (rule conjunct2 [THEN conjunct2])
  from first fresh flag
  have "Gather newSystemdTimings bootedEnv initGlobals emptyAcc =
      (fst (Gather newSystemdTimings bootedEnv initGlobals emptyAcc), afterFirstTick, ?acc2) \<and>
      \<not> collectionDone initGlobals \<and> collectionDone afterFirstTick"
    by (intro conjI)
  from only [rule_format, OF this]
  have 2: "fst (Gather newSystemdTimings bootedEnv initGlobals emptyAcc) = Return None"
    by (rule conjunct1)
  have "Gather newSystemdTimings lostEnv initGlobals emptyAcc =
      (Return (Some (BusError ''connection refused'')), initGlobals, emptyAcc) \<and>
      Return (Some (BusError ''connection refused'')) \<noteq> (Return None :: error option go)"
    using lost_tick by simp
  from failed [rule_format, OF this]
  have 3: "collectionDone (fst (snd (Gather newSystemdTimings lostEnv initGlobals emptyAcc)))
     = collectionDone initGlobals"
    by (simp add: lost_tick)
  from 1 2 flag 3 show ?thesis by (intro conjI)
qed

subsection \<open>The keys of the shared map\<close>

lemma postAllManagerProps_props:
  assumes "postAllManagerProps conn order g acc = (r, g1, acc1)"
  shows "managerProps g1 name = managerProps g name \<or>
         (managerProps g name \<noteq> None \<and>
          (\<exists>v. getManagerProp conn name = Return (Inr v) \<and> managerProps g1 name = Some v))"
proof -
  from assms have "postAllManagerProps_loop conn
      (filter (\<lambda>name. managerProps g name \<noteq> None) order) g acc = (r, g1, acc1)"
    by (simp add: postAllManagerProps_def)
  from manager_loop_props [OF this] show ?thesis
    by auto
qed

lemma Gather_managerProps:
  assumes "Gather s env g acc = (r, g', acc')"
  shows "managerProps g' name = managerProps g name \<or>
         (managerProps g name \<noteq> None \<and>
          (\<exists>conn v. passConnection env = Inr conn \<and>
             getManagerProp conn name = Return (Inr v) \<and> managerProps g' name = Some v))"
  using assms
proof (cases rule: Gather_cases)
  case unready
  then show ?thesis by simp
next
  case (refused err)
  then show ?thesis by simp
next
  case (manager conn p acc1)
  from postAllManagerProps_props [OF manager(2), of name] manager(1) show ?thesis
    by blast
next
  case (manager_error conn err acc1)
  from postAllManagerProps_props [OF manager_error(2), of name] manager_error(1) show ?thesis
    by blast
next
  case (units conn acc1 acc2)
  from postAllManagerProps_props [OF units(2), of name] units(1) show ?thesis
    by blast
next
  case (success conn g1 acc1)
  from postAllManagerProps_props [OF success(3), of name] success(2,5) show ?thesis
    by auto
qed

lemma Gather_dom:
  assumes "Gather s env g acc = (r, g', acc')"
  shows "dom (managerProps g') = dom (managerProps g)"
proof (rule set_eqI)
  fix name
  from Gather_managerProps [OF assms, of name]
  have "managerProps g' name = None \<longleftrightarrow> managerProps g name = None"
    by (cases "managerProps g name") auto
  then show "name \<in> dom (managerProps g') \<longleftrightarrow> name \<in> dom (managerProps g)"
    by (simp only: domIff)
qed

lemma GatherTicks_dom:
  "GatherTicks ticks g acc = (g', acc') \<Longrightarrow> dom (managerProps g') = dom (managerProps g)"
proof (induction ticks arbitrary: g acc)
  case Nil
  then show ?case by simp
next
  case (Cons tick ticks)
  obtain s env where tick: "tick = (s, env)" by (cases tick)
  obtain r g1 acc1 where step: "Gather s env g acc = (r, g1, acc1)"
    by (cases "Gather s env g acc")
  with tick Cons.prems have "GatherTicks ticks g1 acc1 = (g', acc')"
    by simp
  from Cons.IH [OF this] Gather_dom [OF step] show ?case
    by simp
qed

lemma GatherTicks_unread:
  "GatherTicks ticks g acc = (g', acc') \<Longrightarrow>
   \<forall>(s, env) \<in> set ticks. \<forall>conn v.
      passConnection env = Inr conn \<longrightarrow> getManagerProp conn name \<noteq> Return (Inr v) \<Longrightarrow>
   managerProps g' name = managerProps g name"
proof (induction ticks arbitrary: g acc)
  case Nil
  then show ?case by simp
next
  case (Cons tick ticks)
  obtain s env where tick: "tick = (s, env)" by (cases tick)
  obtain r g1 acc1 where step: "Gather s env g acc = (r, g1, acc1)"
    by (cases "Gather s env g acc")
  with tick Cons.prems(1) have rest: "GatherTicks ticks g1 acc1 = (g', acc')"
    by simp
  from Cons.prems(2) have later: "\<forall>(s, env) \<in> set ticks. \<forall>conn v.
      passConnection env = Inr conn \<longrightarrow> getManagerProp conn name \<noteq> Return (Inr v)"
    by simp
  from Cons.prems(2) tick have "\<forall>conn v.
      passConnection env = Inr conn \<longrightarrow> getManagerProp conn name \<noteq> Return (Inr v)"
    by simp
  with Gather_managerProps [OF step, of name] have "managerProps g1 name = managerProps g name"
    by blast
  with Cons.IH [OF rest later] show ?case
    by simp
qed

lemma initGlobals_dom: "dom (managerProps initGlobals) = set managerPropNames"
  by (simp add: initGlobals_def dom_map_of_conv_image_fst image_image)

lemma found_never_not_found:
  assumes "ListUnitsByPatterns conn [] (Split (UnitPattern s) (CHR '','')) = Inr statusList"
    and "managerProps g ''UserspaceTimestampMonotonic'' \<noteq> None"
  shows "fst (postAllUnitTimingData conn acc s g) \<noteq> Return (Some errUserspaceNotFound)"
proof -
  from assms(2) obtain userTs where
    ts: "managerProps g ''UserspaceTimestampMonotonic'' = Some userTs"
    by auto
  obtain v err where parse: "ParseUint userTs 64 = (v, err)"
    by (cases "ParseUint userTs 64")
  show ?thesis
  proof (cases err)
    case None
    with assms(1) ts parse have "postAllUnitTimingData conn acc s g =
        postAllUnitTimingData_loop conn v statusList acc"
      by (simp add: postAllUnitTimingData_def)
    with unit_loop_result [of conn v statusList acc] show ?thesis
      by auto
  next
    case (Some e)
    with parse ParseUint_error have "e \<noteq> errUserspaceNotFound"
      by (auto simp: errUserspaceNotFound_def)
    with assms(1) ts parse Some show ?thesis
      by (simp add: postAllUnitTimingData_def)
  qed
qed

text \<open>
  Claim C10. After any sequence of ticks from the initial package variables, whatever the
  configurations and the bus, the keys of \<^verbatim>\<open>managerProps\<close> are the 17 milestone names: the
  lookup of \<^verbatim>\<open>UserspaceTimestampMonotonic\<close> finds the key, and \<^verbatim>\<open>postAllUnitTimingData\<close>, its
  units listed, does not return the not-found error. As long as no tick has read that
  property, the stored value is the empty string, and \<^verbatim>\<open>postAllUnitTimingData\<close> then returns
  the syntax error of decoding the empty string.
\<close>

theorem reference_always_found:
  "(GatherTicks ticks initGlobals acc = (g, acc') \<longrightarrow>
      dom (managerProps g) = set managerPropNames \<and>
      managerProps g ''UserspaceTimestampMonotonic'' \<noteq> None \<and>
      (\<forall>conn acc2 s statusList.
         ListUnitsByPatterns conn [] (Split (UnitPattern s) (CHR '','')) = Inr statusList \<longrightarrow>
           fst (postAllUnitTimingData conn acc2 s g) \<noteq> Return (Some errUserspaceNotFound))) \<and>
   (GatherTicks ticks initGlobals acc = (g, acc') \<and>
    (\<forall>(s, env) \<in> set ticks. \<forall>conn v.
       passConnection env = Inr conn \<longrightarrow>
         getManagerProp conn ''UserspaceTimestampMonotonic'' \<noteq> Return (Inr v)) \<longrightarrow>
      managerProps g ''UserspaceTimestampMonotonic'' = Some [] \<and>
      (\<forall>conn acc2 s statusList.
         ListUnitsByPatterns conn [] (Split (UnitPattern s) (CHR '','')) = Inr statusList \<longrightarrow>
           postAllUnitTimingData conn acc2 s g =
             (Return (Some (NumError ''ParseUint'' [] ErrSyntax)),
              AddError acc2 (NumError ''ParseUint'' [] ErrSyntax))))"
proof -
  have part1: "dom (managerProps g) = set managerPropNames \<and>
      managerProps g ''UserspaceTimestampMonotonic'' \<noteq> None \<and>
      (\<forall>conn acc2 s statusList.
         ListUnitsByPatterns conn [] (Split (UnitPattern s) (CHR '','')) = Inr statusList \<longrightarrow>
           fst (postAllUnitTimingData conn acc2 s g) \<noteq> Return (Some errUserspaceNotFound))"
    if run: "GatherTicks ticks initGlobals acc = (g, acc')"
  proof -
    from GatherTicks_dom [OF run] have dom: "dom (managerProps g) = set managerPropNames"
      by (simp add: initGlobals_dom)
    then have "''UserspaceTimestampMonotonic'' \<in> dom (managerProps g)"
      by (simp add: managerPropNames_member)
    then have found: "managerProps g ''UserspaceTimestampMonotonic'' \<noteq> None"
      by (simp add: dom_def)
    have "fst (postAllUnitTimingData conn acc2 s g) \<noteq> Return (Some errUserspaceNotFound)"
      if "ListUnitsByPatterns conn [] (Split (UnitPattern s) (CHR '','')) = Inr statusList"
      for conn acc2 s statusList
      using that found by (rule found_never_not_found)
    with dom found show ?thesis by blast
  qed
  have part2: "managerProps g ''UserspaceTimestampMonotonic'' = Some [] \<and>
      (\<forall>conn acc2 s statusList.
         ListUnitsByPatterns conn [] (Split (UnitPattern s) (CHR '','')) = Inr statusList \<longrightarrow>
           postAllUnitTimingData conn acc2 s g =
             (Return (Some (NumError ''ParseUint'' [] ErrSyntax)),
              AddError acc2 (NumError ''ParseUint'' [] ErrSyntax)))"
    if a: "GatherTicks ticks initGlobals acc = (g, acc') \<and>
      (\<forall>(s, env) \<in> set ticks. \<forall>conn v.
         passConnection env = Inr conn \<longrightarrow>
           getManagerProp conn ''UserspaceTimestampMonotonic'' \<noteq> Return (Inr v))"
  proof -
    from a have "managerProps g ''UserspaceTimestampMonotonic'' =
        managerProps initGlobals ''UserspaceTimestampMonotonic''"
      using GatherTicks_unread by blast
    then have empty: "managerProps g ''UserspaceTimestampMonotonic'' = Some []"
      by (simp add: initGlobals_reference)
    have "postAllUnitTimingData conn acc2 s g =
             (Return (Some (NumError ''ParseUint'' [] ErrSyntax)),
              AddError acc2 (NumError ''ParseUint'' [] ErrSyntax))"
      if "ListUnitsByPatterns conn [] (Split (UnitPattern s) (CHR '','')) = Inr statusList"
      for conn acc2 s statusList
      using that empty by (simp add: postAllUnitTimingData_def initGlobals_reference)
    with empty show ?thesis by blast
  qed
  from part1 part2 show ?thesis by blast
qed

lemma silent_tick:
  "\<forall>(s, env) \<in> set [(newSystemdTimings, silentEnv), (newSystemdTimings, lostEnv)]. \<forall>conn v.
       passConnection env = Inr conn \<longrightarrow>
         getManagerProp conn ''UserspaceTimestampMonotonic'' \<noteq> Return (Inr v)"
  by (simp add: silentEnv_def lostEnv_def silentConn_def getManagerProp_def)

theorem reference_always_found_witness:
  "managerProps afterFirstTick ''UserspaceTimestampMonotonic'' \<noteq> None \<and>
   fst (postAllUnitTimingData bootedConn emptyAcc newSystemdTimings afterFirstTick)
     \<noteq> Return (Some errUserspaceNotFound) \<and>
   postAllUnitTimingData bootedConn emptyAcc newSystemdTimings
     (fst (GatherTicks [(newSystemdTimings, silentEnv), (newSystemdTimings, lostEnv)]
            initGlobals emptyAcc)) =
     (Return (Some (NumError ''ParseUint'' [] ErrSyntax)),
      AddError emptyAcc (NumError ''ParseUint'' [] ErrSyntax))"
proof -
  have one: "GatherTicks [(newSystemdTimings, bootedEnv)] initGlobals emptyAcc =
      (afterFirstTick, snd (snd (Gather newSystemdTimings bootedEnv initGlobals emptyAcc)))"
    by (simp add: afterFirstTick_def split: prod.splits)
  from reference_always_found [of "[(newSystemdTimings, bootedEnv)]" emptyAcc afterFirstTick
      "snd (snd (Gather newSystemdTimings bootedEnv initGlobals emptyAcc))"] one bootedConn_list
  have 1: "managerProps afterFirstTick ''UserspaceTimestampMonotonic'' \<noteq> None"
    and 2: "fst (postAllUnitTimingData bootedConn emptyAcc newSystemdTimings afterFirstTick)
     \<noteq> Return (Some errUserspaceNotFound)"
    by blast+
  let ?ticks = "[(newSystemdTimings, silentEnv), (newSystemdTimings, lostEnv)]"
  have two: "GatherTicks ?ticks initGlobals emptyAcc =
      (fst (GatherTicks ?ticks initGlobals emptyAcc), snd (GatherTicks ?ticks initGlobals emptyAcc))"
    by simp
  from reference_always_found [of ?ticks emptyAcc "fst (GatherTicks ?ticks initGlobals emptyAcc)"
      "snd (GatherTicks ?ticks initGlobals emptyAcc)"] two silent_tick bootedConn_list
  have 3: "postAllUnitTimingData bootedConn emptyAcc newSystemdTimings
     (fst (GatherTicks ?ticks initGlobals emptyAcc)) =
     (Return (Some (NumError ''ParseUint'' [] ErrSyntax)),
      AddError emptyAcc (NumError ''ParseUint'' [] ErrSyntax))"
    by blast
  from 1 2 3 show ?thesis by blast
qed

subsection \<open>Timestamps from before the start of userspace\<close>

lemma example_lists:
  "ListUnitsByPatterns earlyConn [] (Split (UnitPattern newSystemdTimings) (CHR '',''))
     = Inr [''early.service'']"
  "ListUnitsByPatterns brokenConn [] (Split (UnitPattern newSystemdTimings) (CHR '',''))
     = Inr [''a.service'', ''b.service'']"
  "ListUnitsByPatterns unparsableConn [] (Split (UnitPattern newSystemdTimings) (CHR '',''))
     = Inr [''a.service'', ''b.service'']"
  by (simp_all add: earlyConn_def brokenConn_def unparsableConn_def)

lemma earlyConn_unit:
  "getUnitTimingData earlyConn ''early.service'' 500 =
     Return (Inr (18446744073709551216, 100, 0, 0, 0))"
  by (simp add: eval_defs earlyConn_def)

text \<open>
  Claim C5 at a unit that left the inactive state at 100 and became active at 600, with
  userspace started at 500. The subtraction for the activating timestamp wraps around to
  \<open>2 ^ 64 - 400\<close>, which is no time since userspace became available; the activated
  timestamp becomes 100; the run duration, 500 on the raw values, comes out as 0; and the
  collector sends no record for the unit and reports no error.
\<close>

theorem early_unit_wraps:
  "getUnitTimingData earlyConn ''early.service'' 500 =
     Return (Inr (18446744073709551216, 100, 0, 0, 0)) \<and>
   postAllUnitTimingData earlyConn emptyAcc newSystemdTimings bootedGlobals =
     (Return None, emptyAcc)"
  by (simp add: earlyConn_unit postAllUnitTimingData_def example_lists bootedGlobals_reference
      HasSuffix_def)

subsection \<open>A property without a second token\<close>



end
